theory Spec2Isabelle
  imports Main "HOL-Library.Word"
begin

unbundle bit_operations_syntax

section \<open>Data model\<close>

type_synonym byte = "8 word"
type_synonym uint16 = "16 word"

text \<open>
  Modelled from the spec: the struct \<open>pdu\<close> is declared outside the given sources, which
  only use its fields \<open>unitId\<close>, \<open>functionCode\<close> and \<open>payload\<close>. The spec's data
  model gives the protocol data unit an 8-bit unit id, an 8-bit function code and a payload
  of bytes of variable length.
\<close>

record pdu =
  unitId :: byte
  functionCode :: byte
  payload :: "byte list"

text \<open>
  Modelled from the spec: the sentinel errors \<open>ErrProtocol\<close> and
  \<open>ErrUnknownProtocolId\<close> are declared outside the given sources. The spec's taxonomy has
  the protocol error (illegal length field), the unknown protocol identifier, and the I/O
  errors, which come out of the socket or out of \<open>io.ReadFull\<close> and are passed through
  unchanged. Errors are values of the model.
\<close>

datatype ioerr = EOF | ErrUnexpectedEOF | ErrDeadlineExceeded | ErrClosed

datatype error = ErrProtocol | ErrUnknownProtocolId | ErrIO ioerr

text \<open>The two warnings the transport sends to its logger, kept in the order they are emitted.\<close>

datatype warning =
    UnexpectedTxnId uint16 uint16
  | UnexpectedProtocolId uint16

definition maxTCPFrameLength :: int where
  "maxTCPFrameLength = 260"

definition mbapHeaderLength :: int where
  "mbapHeaderLength = 7"

section \<open>Fixed-width integer helpers\<close>

datatype Endianness = BIG_ENDIAN | LITTLE_ENDIAN

text \<open>
  Modelled from the spec: the helper \<open>uint16ToBytes\<close> is called by \<open>assembleMBAPFrame\<close>
  but its body is not part of the given sources. The spec lists "binary encode/decode
  primitives for fixed-width integers" and fixes the wire order: "multi-byte integers are
  big-endian", so the most significant byte comes first. The little-endian case is the mirror
  image and is never used by the transport.
\<close>

fun uint16ToBytes :: "Endianness \<Rightarrow> uint16 \<Rightarrow> byte list" where
  "uint16ToBytes BIG_ENDIAN v = [ucast (drop_bit 8 v), ucast v]"
| "uint16ToBytes LITTLE_ENDIAN v = [ucast v, ucast (drop_bit 8 v)]"

text \<open>
  Modelled from the spec: the helper \<open>bytesToUint16\<close> is called by \<open>readMBAPFrame\<close> on
  two-byte slices of the header; its body is not part of the given sources. It is the inverse
  of \<open>uint16ToBytes\<close>: big-endian, most significant byte first. The transport only ever
  passes slices of exactly two bytes; the last equation covers shorter slices, which the
  transport never produces, with 0.
\<close>

fun bytesToUint16 :: "Endianness \<Rightarrow> byte list \<Rightarrow> uint16" where
  "bytesToUint16 BIG_ENDIAN (a # b # _) = push_bit 8 (ucast a) OR ucast b"
| "bytesToUint16 LITTLE_ENDIAN (a # b # _) = push_bit 8 (ucast b) OR ucast a"
| "bytesToUint16 _ _ = 0"

text \<open>The Go slice expression \<open>xs[i:j]\<close>, for \<open>i \<le> j \<le> len(xs)\<close>.\<close>

definition subslice :: "'a list \<Rightarrow> nat \<Rightarrow> nat \<Rightarrow> 'a list" where
  "subslice xs i j = take (j - i) (drop i xs)"

section \<open>The byte-stream connection\<close>

text \<open>
  The transport talks to a \<open>net.Conn\<close>. Its inbound side is the sequence of bytes the peer
  delivers before the deadline expires, followed by the error the socket reports once they
  are used up (\<open>EOF\<close> when the peer closed, a timeout when the deadline passed). Its outbound
  side records every successful \<open>Write\<close>. \<open>SetDeadline\<close> and \<open>Write\<close> may fail: the two
  result lists give the outcome of the successive calls, \<open>None\<close> for success, and a call
  beyond the end of its list succeeds.
\<close>

record conn =
  rx :: "byte list"
  rxErr :: ioerr
  tx :: "byte list list"
  writeResults :: "ioerr option list"
  deadlineResults :: "ioerr option list"

definition SetDeadline :: "conn \<Rightarrow> ioerr option \<times> conn" where
  "SetDeadline c =
     (case deadlineResults c of
        [] \<Rightarrow> (None, c)
      | r # rs \<Rightarrow> (r, c\<lparr>deadlineResults := rs\<rparr>))"

definition Write :: "byte list \<Rightarrow> conn \<Rightarrow> ioerr option \<times> conn" where
  "Write bs c =
     (case writeResults c of
        [] \<Rightarrow> (None, c\<lparr>tx := tx c @ [bs]\<rparr>)
      | None # rs \<Rightarrow> (None, c\<lparr>tx := tx c @ [bs], writeResults := rs\<rparr>)
      | Some e # rs \<Rightarrow> (Some e, c\<lparr>writeResults := rs\<rparr>))"

text \<open>
  \<open>io.ReadFull(socket, buf)\<close> with \<open>len(buf) = n\<close>: it returns exactly \<open>n\<close> bytes, or
  an error. When no byte at all could be read the socket's error is returned as it is; when
  the stream ends after some but not all bytes, \<open>EOF\<close> is turned into \<open>ErrUnexpectedEOF\<close>
  and any other error is returned as it is. The bytes read before the error are consumed.
\<close>

definition ReadFull :: "nat \<Rightarrow> conn \<Rightarrow> (ioerr + byte list) \<times> conn" where
  "ReadFull n c =
     (if n \<le> length (rx c) then (Inr (take n (rx c)), c\<lparr>rx := drop n (rx c)\<rparr>)
      else if rx c = [] then (Inl (rxErr c), c)
      else (Inl (if rxErr c = EOF then ErrUnexpectedEOF else rxErr c), c\<lparr>rx := []\<rparr>))"

section \<open>The stream transport\<close>

text \<open>
  The struct \<open>tcpTransport\<close>: the socket, the transaction id counter, and the warnings its
  logger has received. The \<open>timeout\<close> field only feeds the deadline and is not modelled.
\<close>

record tcpTransport =
  socket :: conn
  lastTxnId :: uint16
  logged :: "warning list"

text \<open>\<open>assembleMBAPFrame\<close>: MBAP header followed by the PDU.\<close>

definition assembleMBAPFrame :: "uint16 \<Rightarrow> pdu \<Rightarrow> byte list" where
  "assembleMBAPFrame txnId p =
     (let payload0 = uint16ToBytes BIG_ENDIAN txnId;
          payload1 = payload0 @ [0x00, 0x00];
          payload2 = payload1 @ uint16ToBytes BIG_ENDIAN (of_nat (2 + length (payload p)));
          payload3 = payload2 @ [unitId p];
          payload4 = payload3 @ [functionCode p]
      in payload4 @ payload p)"

text \<open>
  \<open>readMBAPFrame\<close>: reads one frame off the socket. The result is the error, or the PDU
  with the frame's transaction id; the second component is the transport afterwards.
\<close>

definition readMBAPFrame :: "tcpTransport \<Rightarrow> (error + pdu \<times> uint16) \<times> tcpTransport" where
  "readMBAPFrame tt =
     (case ReadFull (nat mbapHeaderLength) (socket tt) of
        (Inl e, c1) \<Rightarrow> (Inl (ErrIO e), tt\<lparr>socket := c1\<rparr>)
      | (Inr rxbuf, c1) \<Rightarrow>
          (let txnId = bytesToUint16 BIG_ENDIAN (subslice rxbuf 0 2);
               protocolId = bytesToUint16 BIG_ENDIAN (subslice rxbuf 2 4);
               unitId0 = rxbuf ! 6;
               bytesNeeded = int (unat (bytesToUint16 BIG_ENDIAN (subslice rxbuf 4 6))) - 1
           in if bytesNeeded + mbapHeaderLength > maxTCPFrameLength
              then (Inl ErrProtocol, tt\<lparr>socket := c1\<rparr>)
              else if bytesNeeded \<le> 0
              then (Inl ErrProtocol, tt\<lparr>socket := c1\<rparr>)
              else (case ReadFull (nat bytesNeeded) c1 of
                      (Inl e, c2) \<Rightarrow> (Inl (ErrIO e), tt\<lparr>socket := c2\<rparr>)
                    | (Inr body, c2) \<Rightarrow>
                        if protocolId \<noteq> 0x0000
                        then (Inl ErrUnknownProtocolId,
                              tt\<lparr>socket := c2,
                                 logged := logged tt @ [UnexpectedProtocolId protocolId]\<rparr>)
                        else (Inr (\<lparr>unitId = unitId0,
                                    functionCode = body ! 0,
                                    payload = drop 1 body\<rparr>, txnId),
                              tt\<lparr>socket := c2\<rparr>))))"

text \<open>
  \<open>readResponse\<close>: the matching loop of the client. Every iteration reads one frame; the
  loop is recursion on the transport, and it ends because a frame that is skipped has used up
  at least its header.
\<close>

function readResponse :: "tcpTransport \<Rightarrow> (error + pdu) \<times> tcpTransport" where
  "readResponse tt =
     (case readMBAPFrame tt of
        (Inl e, tt1) \<Rightarrow>
          if e = ErrUnknownProtocolId then readResponse tt1
          else (Inl e, tt1)
      | (Inr (res, txnId), tt1) \<Rightarrow>
          if lastTxnId tt1 \<noteq> txnId
          then readResponse
                 (tt1\<lparr>logged := logged tt1 @ [UnexpectedTxnId (lastTxnId tt1) txnId]\<rparr>)
          else (Inr res, tt1))"
  by pat_completeness auto
termination
proof (relation "measure (\<lambda>tt. length (rx (socket tt)))")
  show "wf (measure (\<lambda>tt. length (rx (socket tt))))" by simp
next
  fix tt x tt1 e
  assume "(x, tt1) = readMBAPFrame tt" and "x = Inl e" and "e = ErrUnknownProtocolId"
  then have "readMBAPFrame tt = (Inl ErrUnknownProtocolId, tt1)" by simp
  then have "length (rx (socket tt1)) < length (rx (socket tt))"
    by (auto simp: readMBAPFrame_def ReadFull_def Let_def mbapHeaderLength_def
             split: prod.splits sum.splits if_splits)
  then show "(tt1, tt) \<in> measure (\<lambda>tt. length (rx (socket tt)))" by simp
next
  fix tt x tt1 y res txnId
  assume "(x, tt1) = readMBAPFrame tt" and "x = Inr y" and "(res, txnId) = y"
  then have "readMBAPFrame tt = (Inr (res, txnId), tt1)" by simp
  then have "length (rx (socket tt1)) < length (rx (socket tt))"
    by (auto simp: readMBAPFrame_def ReadFull_def Let_def mbapHeaderLength_def
             split: prod.splits sum.splits if_splits)
  then show "(tt1\<lparr>logged := logged tt1 @ [UnexpectedTxnId (lastTxnId tt1) txnId]\<rparr>, tt)
          \<in> measure (\<lambda>tt. length (rx (socket tt)))" by simp
qed

declare readResponse.simps [simp del]

text \<open>\<open>ExecuteRequest\<close>: runs a request across the socket and returns a response.\<close>

definition ExecuteRequest :: "tcpTransport \<Rightarrow> pdu \<Rightarrow> (error + pdu) \<times> tcpTransport" where
  "ExecuteRequest tt req =
     (case SetDeadline (socket tt) of
        (Some e, c1) \<Rightarrow> (Inl (ErrIO e), tt\<lparr>socket := c1\<rparr>)
      | (None, c1) \<Rightarrow>
          (let tt1 = tt\<lparr>socket := c1, lastTxnId := lastTxnId tt + 1\<rparr>
           in case Write (assembleMBAPFrame (lastTxnId tt1) req) (socket tt1) of
                (Some e, c2) \<Rightarrow> (Inl (ErrIO e), tt1\<lparr>socket := c2\<rparr>)
              | (None, c2) \<Rightarrow> readResponse (tt1\<lparr>socket := c2\<rparr>)))"

text \<open>\<open>ReadRequest\<close>: reads a request from the socket.\<close>

definition ReadRequest :: "tcpTransport \<Rightarrow> (error + pdu) \<times> tcpTransport" where
  "ReadRequest tt =
     (case SetDeadline (socket tt) of
        (Some e, c1) \<Rightarrow> (Inl (ErrIO e), tt\<lparr>socket := c1\<rparr>)
      | (None, c1) \<Rightarrow>
          (case readMBAPFrame (tt\<lparr>socket := c1\<rparr>) of
             (Inl e, tt1) \<Rightarrow> (Inl e, tt1)
           | (Inr (req, txnId), tt1) \<Rightarrow> (Inr req, tt1\<lparr>lastTxnId := txnId\<rparr>)))"

text \<open>\<open>WriteResponse\<close>: writes a response to the socket.\<close>

definition WriteResponse :: "tcpTransport \<Rightarrow> pdu \<Rightarrow> error option \<times> tcpTransport" where
  "WriteResponse tt res =
     (case Write (assembleMBAPFrame (lastTxnId tt) res) (socket tt) of
        (Some e, c1) \<Rightarrow> (Some (ErrIO e), tt\<lparr>socket := c1\<rparr>)
      | (None, c1) \<Rightarrow> (None, tt\<lparr>socket := c1\<rparr>))"

section \<open>The datagram adapter\<close>

text \<open>
  The wrapped \<open>net.UDPConn\<close>: the outcomes of the successive receives, each a datagram or
  an error, and the error reported when nothing more arrives before the deadline.
\<close>

record udpConn =
  pending :: "(ioerr + byte list) list"
  idleErr :: ioerr

text \<open>
  Go's builtin \<open>copy(dst, src)\<close>: overwrites the first \<open>min(len(dst), len(src))\<close>
  elements of \<open>dst\<close> and returns that number. It behaves as if \<open>src\<close> were read in full
  before \<open>dst\<close> is written, so overlapping slices of one array are handled.
\<close>

definition copy :: "'a list \<Rightarrow> 'a list \<Rightarrow> 'a list \<times> nat" where
  "copy dst src =
     (let n = min (length dst) (length src) in (take n src @ drop n dst, n))"

text \<open>
  \<open>sock.Read(b)\<close> on the datagram socket: one receive. A datagram longer than \<open>b\<close> is
  cut to \<open>len(b)\<close> and the excess is lost. The result is the byte count with the buffer
  afterwards.
\<close>

definition sock_Read :: "byte list \<Rightarrow> udpConn \<Rightarrow> (ioerr + nat \<times> byte list) \<times> udpConn" where
  "sock_Read b s =
     (case pending s of
        [] \<Rightarrow> (Inl (idleErr s), s)
      | Inl e # rest \<Rightarrow> (Inl e, s\<lparr>pending := rest\<rparr>)
      | Inr d # rest \<Rightarrow>
          (let (b', n) = copy b d in (Inr (n, b'), s\<lparr>pending := rest\<rparr>)))"

record udpSockWrapper =
  leftoverCount :: int
  rxbuf :: "byte list"
  sock :: udpConn

definition newUDPSockWrapper :: "udpConn \<Rightarrow> udpSockWrapper" where
  "newUDPSockWrapper s =
     \<lparr>leftoverCount = 0, rxbuf = replicate (nat maxTCPFrameLength) 0, sock = s\<rparr>"

text \<open>
  A slice expression whose upper bound exceeds the capacity of \<open>rxbuf\<close> panics; a receive
  error is passed through.
\<close>

datatype rderror = Panic | RecvErr ioerr

text \<open>
  \<open>udpSockWrapper.Read(buf)\<close>: the argument is the caller's buffer; the result is the
  number of bytes copied with the caller's buffer afterwards, or the error.
\<close>

definition udpSockWrapper_Read ::
    "byte list \<Rightarrow> udpSockWrapper \<Rightarrow> (rderror + nat \<times> byte list) \<times> udpSockWrapper" where
  "udpSockWrapper_Read buf usw =
     (if leftoverCount usw > 0 then
        (if leftoverCount usw > int (length (rxbuf usw)) then (Inl Panic, usw)
         else
           (let (buf', copied) = copy buf (subslice (rxbuf usw) 0 (nat (leftoverCount usw)));
                rxbuf' =
                  (if leftoverCount usw > int copied
                   then fst (copy (rxbuf usw)
                               (subslice (rxbuf usw) copied (nat (leftoverCount usw))))
                   else rxbuf usw)
            in (Inr (copied, buf'),
                usw\<lparr>rxbuf := rxbuf', leftoverCount := leftoverCount usw - int copied\<rparr>)))
      else
        (case sock_Read (rxbuf usw) (sock usw) of
           (Inl e, s') \<Rightarrow> (Inl (RecvErr e), usw\<lparr>sock := s'\<rparr>)
         | (Inr (rlen, rxbuf1), s') \<Rightarrow>
             (let (buf', copied) = copy buf (subslice rxbuf1 0 rlen);
                  rxbuf2 =
                    (if rlen > copied
                     then fst (copy rxbuf1 (subslice rxbuf1 copied rlen))
                     else rxbuf1)
              in (Inr (copied, buf'),
                  usw\<lparr>sock := s', rxbuf := rxbuf2,
                      leftoverCount := int rlen - int copied\<rparr>))))"

text \<open>
  The state invariant of the adapter: the leftover count lies within the buffer, whose
  length never changes. The bytes still owed to the caller are the first
  \<open>leftoverCount\<close> bytes of the buffer.
\<close>

definition usw_inv :: "udpSockWrapper \<Rightarrow> bool" where
  "usw_inv usw \<longleftrightarrow>
     0 \<le> leftoverCount usw \<and> leftoverCount usw \<le> int (length (rxbuf usw)) \<and>
     int (length (rxbuf usw)) = maxTCPFrameLength"

definition leftover :: "udpSockWrapper \<Rightarrow> byte list" where
  "leftover usw = take (nat (leftoverCount usw)) (rxbuf usw)"

section \<open>Constructing transports\<close>

text \<open>
  \<open>newTCPTransport\<close>: a fresh transport on a socket; the transaction id counter starts at
  its zero value.
\<close>

definition newTCPTransport :: "conn \<Rightarrow> tcpTransport" where
  "newTCPTransport c = \<lparr>socket = c, lastTxnId = 0, logged = []\<rparr>"

text \<open>
  A connection on which the peer delivers the given bytes and then nothing before the
  deadline, and on which every \<open>SetDeadline\<close> and \<open>Write\<close> succeeds.
\<close>

definition connWithInput :: "byte list \<Rightarrow> conn" where
  "connWithInput bs =
     \<lparr>rx = bs, rxErr = ErrDeadlineExceeded, tx = [], writeResults = [], deadlineResults = []\<rparr>"

section \<open>Big-endian encoding\<close>

lemma be16_inverse:
  "push_bit 8 (ucast (ucast (drop_bit 8 w) :: byte)) OR ucast (ucast w :: byte) = (w :: uint16)"
  by (rule bit_word_eqI) (auto simp: bit_simps)

lemma unat_low_byte: "unat (ucast w :: byte) = unat (w :: uint16) mod 256"
  by (simp add: unsigned_ucast_eq take_bit_eq_mod)

lemma unat_high_byte: "unat (ucast (drop_bit 8 w) :: byte) = unat (w :: uint16) div 256"
proof -
  have "unat w < 65536"
    using unsigned_less [of w, where 'a = nat] by simp
  then have "unat w div 256 < 256" by simp
  then show ?thesis
    by (simp add: unsigned_ucast_eq unat_drop_bit_eq take_bit_eq_mod drop_bit_eq_div unat_div)
qed

lemma be16_value:
  "256 * unat (ucast (drop_bit 8 w) :: byte) + unat (ucast w :: byte) = unat (w :: uint16)"
  by (subst unat_high_byte, subst unat_low_byte) simp

lemma bytesToUint16_be16:
  "bytesToUint16 BIG_ENDIAN [ucast (drop_bit 8 w), ucast w] = w"
  by (simp add: be16_inverse)

lemma be16_high:
  "ucast (drop_bit 8 (push_bit 8 (ucast a) OR ucast (b :: byte) :: uint16)) = (a :: byte)"
  by (rule bit_word_eqI) (auto simp: bit_simps dest: bit_imp_le_length)

lemma be16_low:
  "ucast (push_bit 8 (ucast (a :: byte)) OR ucast b :: uint16) = (b :: byte)"
  by (rule bit_word_eqI) (auto simp: bit_simps dest: bit_imp_le_length)

lemma unat_bytesToUint16:
  "unat (bytesToUint16 BIG_ENDIAN [a, b]) = 256 * unat a + unat b"
  using be16_value [of "push_bit 8 (ucast a) OR ucast b"]
  by (simp only: be16_high be16_low bytesToUint16.simps)

lemma unat_length_field:
  "unat (of_nat (2 + n) :: uint16) = (2 + n) mod 65536"
  by (simp only: unat_of_nat) simp

lemma assemble_bytes:
  "assembleMBAPFrame t p =
     [ucast (drop_bit 8 t), ucast t, 0, 0,
      ucast (drop_bit 8 (of_nat (2 + length (payload p)) :: uint16)),
      ucast (of_nat (2 + length (payload p)) :: uint16),
      unitId p, functionCode p] @ payload p"
  by (simp add: assembleMBAPFrame_def Let_def)

section \<open>Decoding one frame\<close>

lemma ReadFull_append:
  "length xs = n \<Longrightarrow> rx c = xs @ ys \<Longrightarrow> ReadFull n c = (Inr xs, c\<lparr>rx := ys\<rparr>)"
  by (simp add: ReadFull_def)

text \<open>
  A frame on the wire is seven header bytes and a body whose length the header announces.
  When the body has between 1 and 253 bytes, \<open>readMBAPFrame\<close> consumes exactly the frame
  and the protocol identifier alone decides between a PDU and \<open>ErrUnknownProtocolId\<close>.
\<close>

lemma readMBAPFrame_frame:
  assumes hdr: "rx (socket tt) = [t1, t0, p1, p0, l1, l0, u] @ body @ rest"
    and len: "int (length body) = int (unat (bytesToUint16 BIG_ENDIAN [l1, l0])) - 1"
    and pos: "0 < length body" and max: "length body \<le> 253"
  shows "readMBAPFrame tt =
     (if bytesToUint16 BIG_ENDIAN [p1, p0] \<noteq> 0
      then (Inl ErrUnknownProtocolId,
            tt\<lparr>socket := (socket tt)\<lparr>rx := rest\<rparr>,
               logged := logged tt @ [UnexpectedProtocolId (bytesToUint16 BIG_ENDIAN [p1, p0])]\<rparr>)
      else (Inr (\<lparr>unitId = u, functionCode = body ! 0, payload = drop 1 body\<rparr>,
                 bytesToUint16 BIG_ENDIAN [t1, t0]),
            tt\<lparr>socket := (socket tt)\<lparr>rx := rest\<rparr>\<rparr>))"
proof -
  have h: "ReadFull (nat mbapHeaderLength) (socket tt) =
             (Inr [t1, t0, p1, p0, l1, l0, u], (socket tt)\<lparr>rx := body @ rest\<rparr>)"
    by (rule ReadFull_append) (simp_all add: mbapHeaderLength_def hdr)
  have n: "nat (int (unat (bytesToUint16 BIG_ENDIAN [l1, l0])) - 1) = length body"
    using len by linarith
  have b: "ReadFull (length body) ((socket tt)\<lparr>rx := body @ rest\<rparr>) =
             (Inr body, (socket tt)\<lparr>rx := rest\<rparr>)"
    using ReadFull_append [of body "length body" "(socket tt)\<lparr>rx := body @ rest\<rparr>" rest]
    by simp
  have c1: "\<not> int (unat (bytesToUint16 BIG_ENDIAN [l1, l0])) - 1 + mbapHeaderLength
              > maxTCPFrameLength"
    unfolding mbapHeaderLength_def maxTCPFrameLength_def using len max by linarith
  have c2: "\<not> int (unat (bytesToUint16 BIG_ENDIAN [l1, l0])) - 1 \<le> 0"
  proof -
    have "0 < int (length body)" using pos by simp
    with len show ?thesis by linarith
  qed
  have s1: "subslice [t1, t0, p1, p0, l1, l0, u] 0 2 = [t1, t0]"
    and s2: "subslice [t1, t0, p1, p0, l1, l0, u] 2 4 = [p1, p0]"
    and s3: "subslice [t1, t0, p1, p0, l1, l0, u] 4 6 = [l1, l0]"
    and s4: "[t1, t0, p1, p0, l1, l0, u] ! 6 = u"
    by (simp_all add: subslice_def)
  show ?thesis
    unfolding readMBAPFrame_def h
    by (simp only: prod.case sum.case Let_def s1 s2 s3 s4 c1 c2 if_False n b not_less
          tcpTransport.simps split: if_splits)
qed

section \<open>What the operations leave unchanged\<close>

lemma ReadFull_frame:
  "ReadFull n c = (r, c') \<Longrightarrow>
     tx c' = tx c \<and> writeResults c' = writeResults c \<and> deadlineResults c' = deadlineResults c
     \<and> rxErr c' = rxErr c"
  by (auto simp: ReadFull_def split: if_splits)

lemma readMBAPFrame_keeps:
  assumes "readMBAPFrame tt = (r, tt')"
  shows "lastTxnId tt' = lastTxnId tt" 
    and "tx (socket tt') = tx (socket tt)"
    and "writeResults (socket tt') = writeResults (socket tt)"
    and "deadlineResults (socket tt') = deadlineResults (socket tt)"
  using assms
  by (auto simp: readMBAPFrame_def Let_def split: prod.splits sum.splits if_splits
           dest!: ReadFull_frame)

lemma readResponse_keeps:
  "readResponse tt = (r, tt') \<Longrightarrow>
     lastTxnId tt' = lastTxnId tt \<and> tx (socket tt') = tx (socket tt) \<and>
     writeResults (socket tt') = writeResults (socket tt) \<and>
     deadlineResults (socket tt') = deadlineResults (socket tt)"
proof (induction tt arbitrary: r tt' rule: readResponse.induct)
  case (1 tt)
  obtain x tt1 where f: "readMBAPFrame tt = (x, tt1)" by (cases "readMBAPFrame tt")
  note k = readMBAPFrame_keeps [OF f]
  show ?case
  proof (cases x)
    case (Inl e)
    show ?thesis
    proof (cases "e = ErrUnknownProtocolId")
      case True
      with 1(3) f Inl have "readResponse tt1 = (r, tt')"
        by (simp add: readResponse.simps [of tt])
      from 1(1) [OF f [symmetric] Inl True this] k show ?thesis by simp
    next
      case False
      with 1(3) f Inl have "tt' = tt1" by (simp add: readResponse.simps [of tt])
      with k show ?thesis by simp
    qed
  next
    case (Inr y)
    obtain res txnId where y: "y = (res, txnId)" by (cases y)
    show ?thesis
    proof (cases "lastTxnId tt1 \<noteq> txnId")
      case True
      let ?tt2 = "tt1\<lparr>logged := logged tt1 @ [UnexpectedTxnId (lastTxnId tt1) txnId]\<rparr>"
      from True 1(3) f Inr y have "readResponse ?tt2 = (r, tt')"
        by (simp add: readResponse.simps [of tt])
      from 1(2) [OF f [symmetric] Inr y [symmetric] True this] k show ?thesis by simp
    next
      case False
      with 1(3) f Inr y have "tt' = tt1" by (simp add: readResponse.simps [of tt])
      with k show ?thesis by simp
    qed
  qed
qed


lemma SetDeadline_keeps:
  "rx (snd (SetDeadline c)) = rx c" "tx (snd (SetDeadline c)) = tx c"
  "writeResults (snd (SetDeadline c)) = writeResults c"
  by (simp_all add: SetDeadline_def split: list.splits)

lemma Write_keeps:
  "rx (snd (Write bs c)) = rx c"
  "deadlineResults (snd (Write bs c)) = deadlineResults c"
  by (simp_all add: Write_def split: list.splits option.splits)

lemma Write_tx:
  "tx (snd (Write bs c)) = (if fst (Write bs c) = None then tx c @ [bs] else tx c)"
  by (simp add: Write_def split: list.splits option.splits)

lemma readResponse_abort:
  "readMBAPFrame tt = (Inl e, tt1) \<Longrightarrow> e \<noteq> ErrUnknownProtocolId \<Longrightarrow>
     readResponse tt = (Inl e, tt1)"
  by (simp add: readResponse.simps [of tt])

lemma readMBAPFrame_bad_length:
  assumes hdr: "rx (socket tt) = [t1, t0, p1, p0, l1, l0, u] @ rest"
    and bad: "int (256 * unat l1 + unat l0) - 1 \<le> 0 \<or>
              7 + (int (256 * unat l1 + unat l0) - 1) > 260"
  shows "readMBAPFrame tt = (Inl ErrProtocol, tt\<lparr>socket := (socket tt)\<lparr>rx := rest\<rparr>\<rparr>)"
proof -
  have h: "ReadFull (nat mbapHeaderLength) (socket tt) =
             (Inr [t1, t0, p1, p0, l1, l0, u], (socket tt)\<lparr>rx := rest\<rparr>)"
    by (rule ReadFull_append) (simp_all add: mbapHeaderLength_def hdr)
  have s3: "subslice [t1, t0, p1, p0, l1, l0, u] 4 6 = [l1, l0]"
    by (simp add: subslice_def)
  from bad have c:
    "int (unat (bytesToUint16 BIG_ENDIAN [l1, l0])) - 1 + mbapHeaderLength > maxTCPFrameLength \<or>
     int (unat (bytesToUint16 BIG_ENDIAN [l1, l0])) - 1 \<le> 0"
    unfolding unat_bytesToUint16 mbapHeaderLength_def maxTCPFrameLength_def by linarith
  show ?thesis
    unfolding readMBAPFrame_def h using c
    by (auto simp only: prod.case sum.case Let_def s3 if_True if_False split: if_splits)
qed

lemma ExecuteRequest_effect:
  assumes ok: "fst (SetDeadline (socket tt)) = None"
  shows "lastTxnId (snd (ExecuteRequest tt req)) = lastTxnId tt + 1 \<and>
         tx (socket (snd (ExecuteRequest tt req))) =
           (if fst (Write (assembleMBAPFrame (lastTxnId tt + 1) req)
                          (snd (SetDeadline (socket tt)))) = None
            then tx (socket tt) @ [assembleMBAPFrame (lastTxnId tt + 1) req]
            else tx (socket tt))"
proof -
  obtain c1 where S: "SetDeadline (socket tt) = (None, c1)"
    using ok by (cases "SetDeadline (socket tt)") simp
  let ?F = "assembleMBAPFrame (lastTxnId tt + 1) req"
  let ?tt1 = "tt\<lparr>socket := c1, lastTxnId := lastTxnId tt + 1\<rparr>"
  obtain w c2 where W: "Write ?F c1 = (w, c2)" by (cases "Write ?F c1")
  have t1: "tx c1 = tx (socket tt)" using SetDeadline_keeps(2) [of "socket tt"] S by simp
  have t2: "tx c2 = (if w = None then tx c1 @ [?F] else tx c1)"
    using Write_tx [of ?F c1] W by simp
  show ?thesis
  proof (cases w)
    case None
    obtain r tt' where R: "readResponse (?tt1\<lparr>socket := c2\<rparr>) = (r, tt')"
      by (cases "readResponse (?tt1\<lparr>socket := c2\<rparr>)")
    from readResponse_keeps [OF R] have "lastTxnId tt' = lastTxnId tt + 1"
      and "tx (socket tt') = tx c2" by simp_all
    with S W None R t1 t2 show ?thesis
      by (simp add: ExecuteRequest_def Let_def)
  next
    case (Some e)
    with S W t1 t2 show ?thesis
      by (simp add: ExecuteRequest_def Let_def)
  qed
qed

lemmas ExecuteRequest_lastTxnId = ExecuteRequest_effect [THEN conjunct1]
lemmas ExecuteRequest_tx = ExecuteRequest_effect [THEN conjunct2]

lemma unat_succ16: "unat (w + 1 :: uint16) = (unat w + 1) mod 65536"
  by (simp add: unat_word_ariths)

section \<open>Claims about the frame codec\<close>

text \<open>
  C1. Round trip: for every PDU whose payload has at most 252 bytes and every transaction id,
  when the inbound bytes of the socket are exactly the frame built by \<open>assembleMBAPFrame\<close>
  (followed by anything), \<open>readMBAPFrame\<close> succeeds, returns the same unit id, function
  code and payload together with the same transaction id, and leaves the bytes after the frame
  unread.
\<close>

theorem assemble_read_roundtrip:
  assumes small: "length (payload p) \<le> 252"
    and wire: "rx (socket tt) = assembleMBAPFrame txnId p @ rest"
  shows "readMBAPFrame tt = (Inr (p, txnId), tt\<lparr>socket := (socket tt)\<lparr>rx := rest\<rparr>\<rparr>)"
proof -
  define L :: uint16 where "L = of_nat (2 + length (payload p))"
  define body where "body = functionCode p # payload p"
  have L: "unat L = 2 + length (payload p)"
    unfolding L_def using small by (simp only: unat_length_field) simp
  have wire': "rx (socket tt) =
      [ucast (drop_bit 8 txnId), ucast txnId, 0, 0, ucast (drop_bit 8 L), ucast L, unitId p]
        @ body @ rest"
    unfolding wire assemble_bytes L_def body_def by simp
  have len: "int (length body) =
      int (unat (bytesToUint16 BIG_ENDIAN [ucast (drop_bit 8 L), ucast L])) - 1"
    unfolding bytesToUint16_be16 L body_def by simp
  have pos: "0 < length body" and max: "length body \<le> 253"
    using small by (simp_all add: body_def)
  have proto: "bytesToUint16 BIG_ENDIAN [0, 0] = 0" by simp
  have p: "\<lparr>unitId = unitId p, functionCode = body ! 0, payload = drop 1 body\<rparr> = p"
    by (simp add: body_def)
  show ?thesis
    unfolding readMBAPFrame_frame [OF wire' len pos max] proto bytesToUint16_be16 p
    by simp
qed

theorem assemble_read_roundtrip_witness:
  "length (payload \<lparr>unitId = 1, functionCode = 3, payload = [0, 0, 0, 2]\<rparr>) \<le> 252 \<and>
   [0x12, 0x34, 0, 0, 0, 6, 1, 3, 0, 0, 0, 2] @ [0xFF] =
     assembleMBAPFrame 0x1234 \<lparr>unitId = 1, functionCode = 3, payload = [0, 0, 0, 2]\<rparr> @ [0xFF] \<and>
   readMBAPFrame
     \<lparr>socket = \<lparr>rx = [0x12, 0x34, 0, 0, 0, 6, 1, 3, 0, 0, 0, 2] @ [0xFF], rxErr = EOF, tx = [],
                 writeResults = [], deadlineResults = []\<rparr>,
      lastTxnId = 0, logged = []\<rparr> =
     (Inr (\<lparr>unitId = 1, functionCode = 3, payload = [0, 0, 0, 2]\<rparr>, 0x1234),
      \<lparr>socket = \<lparr>rx = [0xFF], rxErr = EOF, tx = [],
                 writeResults = [], deadlineResults = []\<rparr>,
       lastTxnId = 0, logged = []\<rparr>)"
proof -
  have w: "[0x12, 0x34, 0, 0, 0, 6, 1, 3, 0, 0, 0, 2] @ [0xFF] =
     assembleMBAPFrame 0x1234 \<lparr>unitId = 1, functionCode = 3, payload = [0, 0, 0, 2]\<rparr> @ [0xFF]"
    by (simp add: assembleMBAPFrame_def)
  have s: "length (payload \<lparr>unitId = 1, functionCode = 3, payload = [0, 0, 0, 2]\<rparr>) \<le> 252"
    by simp
  show ?thesis
    using assemble_read_roundtrip
      [of "\<lparr>unitId = 1, functionCode = 3, payload = [0, 0, 0, 2]\<rparr>"
          "\<lparr>socket = \<lparr>rx = [0x12, 0x34, 0, 0, 0, 6, 1, 3, 0, 0, 0, 2] @ [0xFF], rxErr = EOF,
                      tx = [], writeResults = [], deadlineResults = []\<rparr>,
            lastTxnId = 0, logged = []\<rparr>" "0x1234" "[0xFF]", OF s]
      w s
    by simp
qed

text \<open>
  C5, as amended. For every PDU and transaction id the frame built by \<open>assembleMBAPFrame\<close>
  is exactly: the transaction id in two bytes, most significant first; two zero bytes; the
  length field in two bytes, most significant first; the unit id; the function code; the
  payload; nothing else, so \<open>7 + 1 + len(payload)\<close> bytes in all. The length field is
  \<open>2 + len(payload)\<close> cut to 16 bits, that is, taken modulo 65536; it equals
  \<open>2 + len(payload)\<close> whenever the payload has at most 65533 bytes.
\<close>

theorem assembleMBAPFrame_layout:
  "\<exists>t1 t0 l1 l0.
     assembleMBAPFrame txnId p =
       [t1, t0, 0x00, 0x00, l1, l0, unitId p, functionCode p] @ payload p \<and>
     256 * unat t1 + unat t0 = unat txnId \<and>
     256 * unat l1 + unat l0 = (2 + length (payload p)) mod 65536 \<and>
     (length (payload p) \<le> 65533 \<longrightarrow> 256 * unat l1 + unat l0 = 2 + length (payload p)) \<and>
     length (assembleMBAPFrame txnId p) = 7 + 1 + length (payload p)"
proof -
  define L :: uint16 where "L = of_nat (2 + length (payload p))"
  have L: "unat L = (2 + length (payload p)) mod 65536"
    unfolding L_def by (rule unat_length_field)
  have f: "assembleMBAPFrame txnId p =
      [ucast (drop_bit 8 txnId), ucast txnId, 0, 0, ucast (drop_bit 8 L), ucast L,
       unitId p, functionCode p] @ payload p"
    unfolding assemble_bytes L_def by simp
  have n: "length (assembleMBAPFrame txnId p) = 7 + 1 + length (payload p)"
    unfolding f by simp
  have v: "256 * unat (ucast (drop_bit 8 L) :: byte) + unat (ucast L :: byte) =
             (2 + length (payload p)) mod 65536"
    unfolding be16_value L ..
  have w: "length (payload p) \<le> 65533 \<longrightarrow>
             256 * unat (ucast (drop_bit 8 L) :: byte) + unat (ucast L :: byte) =
             2 + length (payload p)"
    unfolding v by simp
  from f be16_value [of txnId] v w n show ?thesis by blast
qed

theorem assembleMBAPFrame_layout_witness:
  "length (payload \<lparr>unitId = 1, functionCode = 3, payload = [0, 0, 0, 2]\<rparr>) \<le> 65533 \<and>
   (\<exists>t1 t0 l1 l0.
      assembleMBAPFrame 0x1234 \<lparr>unitId = 1, functionCode = 3, payload = [0, 0, 0, 2]\<rparr> =
        [t1, t0, 0x00, 0x00, l1, l0, 1, 3] @ [0, 0, 0, 2] \<and>
      256 * unat t1 + unat t0 = unat (0x1234 :: uint16) \<and>
      256 * unat l1 + unat l0 = 6)"
  using assembleMBAPFrame_layout
    [of "0x1234" "\<lparr>unitId = 1, functionCode = 3, payload = [0, 0, 0, 2]\<rparr>"]
  by simp blast

text \<open>
  The claim as it was stated fails on a payload of 65534 bytes: the length field of the frame
  reads 0, not 65536.
\<close>

theorem assembleMBAPFrame_length_counterexample:
  "256 * unat (assembleMBAPFrame 1
                 \<lparr>unitId = 1, functionCode = 3, payload = replicate 65534 0\<rparr> ! 4)
     + unat (assembleMBAPFrame 1
                 \<lparr>unitId = 1, functionCode = 3, payload = replicate 65534 0\<rparr> ! 5)
   \<noteq> 2 + length (payload \<lparr>unitId = 1, functionCode = 3, payload = replicate 65534 0\<rparr>)"
  by (simp add: assembleMBAPFrame_def Let_def)

text \<open>
  C3. A frame whose header announces an illegal length never yields a PDU. Whenever the seven
  header bytes are there and the length field \<open>256 * l1 + l0\<close> is 0, or more generally
  \<open>remaining = length - 1\<close> is at most 0 or \<open>7 + remaining\<close> exceeds 260,
  \<open>readMBAPFrame\<close> returns \<open>ErrProtocol\<close> after the header; the client's matching loop
  returns \<open>ErrProtocol\<close>; \<open>ExecuteRequest\<close> and \<open>ReadRequest\<close> return an error,
  and for \<open>ReadRequest\<close> that error is \<open>ErrProtocol\<close> once the deadline was set.
\<close>

theorem illegal_length_rejected:
  assumes hdr: "rx (socket tt) = [t1, t0, p1, p0, l1, l0, u] @ rest"
    and bad: "256 * unat l1 + unat l0 = 0 \<or>
              int (256 * unat l1 + unat l0) - 1 \<le> 0 \<or>
              7 + (int (256 * unat l1 + unat l0) - 1) > 260"
  shows "readMBAPFrame tt = (Inl ErrProtocol, tt\<lparr>socket := (socket tt)\<lparr>rx := rest\<rparr>\<rparr>) \<and>
         readResponse tt = (Inl ErrProtocol, tt\<lparr>socket := (socket tt)\<lparr>rx := rest\<rparr>\<rparr>) \<and>
         (\<exists>e. fst (ExecuteRequest tt req) = Inl e) \<and>
         (\<exists>e. fst (ReadRequest tt) = Inl e) \<and>
         (fst (SetDeadline (socket tt)) = None \<longrightarrow> fst (ReadRequest tt) = Inl ErrProtocol)"
proof -
  from bad have bad': "int (256 * unat l1 + unat l0) - 1 \<le> 0 \<or>
                       7 + (int (256 * unat l1 + unat l0) - 1) > 260"
    by linarith
  have a: "readMBAPFrame tt = (Inl ErrProtocol, tt\<lparr>socket := (socket tt)\<lparr>rx := rest\<rparr>\<rparr>)"
    by (rule readMBAPFrame_bad_length [OF hdr bad'])
  have b: "readResponse tt = (Inl ErrProtocol, tt\<lparr>socket := (socket tt)\<lparr>rx := rest\<rparr>\<rparr>)"
    by (rule readResponse_abort [OF a]) simp
  have c: "\<exists>e. fst (ExecuteRequest tt req) = Inl e"
  proof (cases "SetDeadline (socket tt)")
    case (Pair d c1)
    show ?thesis
    proof (cases d)
      case (Some e)
      with Pair show ?thesis by (simp add: ExecuteRequest_def)
    next
      case None
      let ?tt1 = "tt\<lparr>socket := c1, lastTxnId := lastTxnId tt + 1\<rparr>"
      obtain w c2 where W: "Write (assembleMBAPFrame (lastTxnId ?tt1) req) (socket ?tt1) = (w, c2)"
        by (cases "Write (assembleMBAPFrame (lastTxnId ?tt1) req) (socket ?tt1)")
      show ?thesis
      proof (cases w)
        case (Some e)
        with Pair None W show ?thesis by (simp add: ExecuteRequest_def Let_def)
      next
        case None': None
        have "rx c1 = rx (socket tt)" using SetDeadline_keeps(1) [of "socket tt"] Pair by simp
        moreover have "rx c2 = rx c1"
          using Write_keeps(1) [of "assembleMBAPFrame (lastTxnId ?tt1) req" c1] W by simp
        ultimately have "rx (socket (?tt1\<lparr>socket := c2\<rparr>)) = [t1, t0, p1, p0, l1, l0, u] @ rest"
          using hdr by simp
        from readMBAPFrame_bad_length [OF this bad']
        have "fst (readResponse (?tt1\<lparr>socket := c2\<rparr>)) = Inl ErrProtocol"
          by (simp add: readResponse_abort)
        with Pair None None' W show ?thesis by (simp add: ExecuteRequest_def Let_def)
      qed
    qed
  qed
  have d: "fst (ReadRequest tt) = Inl ErrProtocol" if ok: "fst (SetDeadline (socket tt)) = None"
  proof -
    obtain c1 where S: "SetDeadline (socket tt) = (None, c1)"
      using ok by (cases "SetDeadline (socket tt)") simp
    have "rx c1 = rx (socket tt)" using SetDeadline_keeps(1) [of "socket tt"] S by simp
    then have "rx (socket (tt\<lparr>socket := c1\<rparr>)) = [t1, t0, p1, p0, l1, l0, u] @ rest"
      using hdr by simp
    from readMBAPFrame_bad_length [OF this bad'] S show ?thesis
      by (simp add: ReadRequest_def)
  qed
  have e: "\<exists>e. fst (ReadRequest tt) = Inl e"
  proof (cases "fst (SetDeadline (socket tt))")
    case None
    with d show ?thesis by simp
  next
    case (Some x)
    then show ?thesis by (cases "SetDeadline (socket tt)") (simp add: ReadRequest_def)
  qed
  from a b c d e show ?thesis by blast
qed

theorem illegal_length_rejected_witness:
  "rx (socket (newTCPTransport (connWithInput [0, 1, 0, 0, 0, 0, 1, 3, 4]))) =
     [0, 1, 0, 0, 0, 0, 1] @ [3, 4] \<and>
   256 * unat (0 :: byte) + unat (0 :: byte) = 0 \<and>
   readMBAPFrame (newTCPTransport (connWithInput [0, 1, 0, 0, 0, 0, 1, 3, 4])) =
     (Inl ErrProtocol, newTCPTransport (connWithInput [3, 4])) \<and>
   readResponse (newTCPTransport (connWithInput [0, 1, 0, 0, 0, 0, 1, 3, 4])) =
     (Inl ErrProtocol, newTCPTransport (connWithInput [3, 4])) \<and>
   fst (ReadRequest (newTCPTransport (connWithInput [0, 1, 0, 0, 0, 0, 1, 3, 4]))) =
     Inl ErrProtocol \<and>
   rx (socket (newTCPTransport (connWithInput [0, 1, 0, 0, 0, 255, 1, 3, 4]))) =
     [0, 1, 0, 0, 0, 255, 1] @ [3, 4] \<and>
   7 + (int (256 * unat (0 :: byte) + unat (255 :: byte)) - 1) > 260 \<and>
   readMBAPFrame (newTCPTransport (connWithInput [0, 1, 0, 0, 0, 255, 1, 3, 4])) =
     (Inl ErrProtocol, newTCPTransport (connWithInput [3, 4]))"
proof -
  have h0: "rx (socket (newTCPTransport (connWithInput [0, 1, 0, 0, 0, 0, 1, 3, 4]))) =
     [0, 1, 0, 0, 0, 0, 1] @ [3, 4]"
    by (simp add: newTCPTransport_def connWithInput_def)
  have b0: "256 * unat (0 :: byte) + unat (0 :: byte) = 0 \<or>
            int (256 * unat (0 :: byte) + unat (0 :: byte)) - 1 \<le> 0 \<or>
            7 + (int (256 * unat (0 :: byte) + unat (0 :: byte)) - 1) > 260"
    by simp
  have d0: "fst (SetDeadline (socket (newTCPTransport
              (connWithInput [0, 1, 0, 0, 0, 0, 1, 3, 4])))) = None"
    by (simp add: newTCPTransport_def connWithInput_def SetDeadline_def)
  have h1: "rx (socket (newTCPTransport (connWithInput [0, 1, 0, 0, 0, 255, 1, 3, 4]))) =
     [0, 1, 0, 0, 0, 255, 1] @ [3, 4]"
    by (simp add: newTCPTransport_def connWithInput_def)
  have b1: "256 * unat (0 :: byte) + unat (255 :: byte) = 0 \<or>
            int (256 * unat (0 :: byte) + unat (255 :: byte)) - 1 \<le> 0 \<or>
            7 + (int (256 * unat (0 :: byte) + unat (255 :: byte)) - 1) > 260"
    by simp
  show ?thesis
    using illegal_length_rejected [OF h0 b0] illegal_length_rejected [OF h1 b1] d0
    by (simp add: newTCPTransport_def connWithInput_def)
qed

text \<open>
  C9. \<open>ReadRequest\<close> leaves the stored transaction id alone when it fails: whatever the
  state and the input, if it returns an error (from \<open>SetDeadline\<close>, from the socket, a
  protocol error or an unknown protocol identifier) then \<open>lastTxnId\<close> afterwards is what
  it was before.
\<close>

theorem ReadRequest_error_keeps_lastTxnId:
  "fst (ReadRequest tt) = Inl e \<Longrightarrow> lastTxnId (snd (ReadRequest tt)) = lastTxnId tt"
proof (cases "SetDeadline (socket tt)")
  case (Pair d c1)
  assume err: "fst (ReadRequest tt) = Inl e"
  show ?thesis
  proof (cases d)
    case (Some x)
    with Pair show ?thesis by (simp add: ReadRequest_def)
  next
    case None
    obtain r tt1 where f: "readMBAPFrame (tt\<lparr>socket := c1\<rparr>) = (r, tt1)"
      by (cases "readMBAPFrame (tt\<lparr>socket := c1\<rparr>)")
    from readMBAPFrame_keeps(1) [OF f] have k: "lastTxnId tt1 = lastTxnId tt" by simp
    show ?thesis
    proof (cases r)
      case (Inl x)
      with Pair None f k show ?thesis by (simp add: ReadRequest_def)
    next
      case (Inr y)
      with Pair None f err show ?thesis
        by (cases y) (simp add: ReadRequest_def)
    qed
  qed
qed


theorem ReadRequest_error_keeps_lastTxnId_witness:
  "fst (ReadRequest \<lparr>socket = connWithInput [0, 9, 0, 5, 0, 2, 1, 3, 4],
                     lastTxnId = 7, logged = []\<rparr>) = Inl ErrUnknownProtocolId \<and>
   lastTxnId (snd (ReadRequest \<lparr>socket = connWithInput [0, 9, 0, 5, 0, 2, 1, 3, 4],
                                lastTxnId = 7, logged = []\<rparr>)) = 7"
proof -
  have e: "fst (ReadRequest \<lparr>socket = connWithInput [0, 9, 0, 5, 0, 2, 1, 3, 4],
                     lastTxnId = 7, logged = []\<rparr>) = Inl ErrUnknownProtocolId"
    by (simp add: ReadRequest_def SetDeadline_def connWithInput_def readMBAPFrame_def
          ReadFull_def subslice_def Let_def mbapHeaderLength_def maxTCPFrameLength_def)
  from ReadRequest_error_keeps_lastTxnId [OF e] e show ?thesis by simp
qed

text \<open>
  C10. Once \<open>SetDeadline\<close> has succeeded, \<open>ExecuteRequest\<close> leaves \<open>lastTxnId\<close> one
  higher, modulo \<open>2 ^ 16\<close>, whatever it returns: the increment is kept when the write fails
  and when reading the response fails. The only frame the call can put on the wire carries the
  incremented id. A second call whose deadline is set therefore uses the id after that,
  whatever the first call returned.
\<close>

theorem ExecuteRequest_increment_persists:
  assumes ok: "fst (SetDeadline (socket tt)) = None"
  shows "lastTxnId (snd (ExecuteRequest tt req)) = lastTxnId tt + 1 \<and>
         unat (lastTxnId (snd (ExecuteRequest tt req))) = (unat (lastTxnId tt) + 1) mod 2 ^ 16 \<and>
         (tx (socket (snd (ExecuteRequest tt req))) = tx (socket tt) \<or>
          tx (socket (snd (ExecuteRequest tt req))) =
            tx (socket tt) @ [assembleMBAPFrame (lastTxnId tt + 1) req]) \<and>
         (fst (SetDeadline (socket (snd (ExecuteRequest tt req)))) = None \<longrightarrow>
            lastTxnId (snd (ExecuteRequest (snd (ExecuteRequest tt req)) req')) =
              lastTxnId tt + 2 \<and>
            (tx (socket (snd (ExecuteRequest (snd (ExecuteRequest tt req)) req'))) =
               tx (socket (snd (ExecuteRequest tt req))) \<or>
             tx (socket (snd (ExecuteRequest (snd (ExecuteRequest tt req)) req'))) =
               tx (socket (snd (ExecuteRequest tt req))) @
                 [assembleMBAPFrame (lastTxnId tt + 2) req']))"
proof -
  let ?tt' = "snd (ExecuteRequest tt req)"
  have a: "lastTxnId ?tt' = lastTxnId tt + 1"
    by (rule ExecuteRequest_lastTxnId [OF ok])
  have b: "unat (lastTxnId ?tt') = (unat (lastTxnId tt) + 1) mod 2 ^ 16"
    unfolding a unat_succ16 by simp
  have c: "tx (socket ?tt') = tx (socket tt) \<or>
           tx (socket ?tt') = tx (socket tt) @ [assembleMBAPFrame (lastTxnId tt + 1) req]"
    unfolding ExecuteRequest_tx [OF ok] by simp
  have d: "lastTxnId (snd (ExecuteRequest ?tt' req')) = lastTxnId tt + 2 \<and>
           (tx (socket (snd (ExecuteRequest ?tt' req'))) = tx (socket ?tt') \<or>
            tx (socket (snd (ExecuteRequest ?tt' req'))) =
              tx (socket ?tt') @ [assembleMBAPFrame (lastTxnId tt + 2) req'])"
    if ok': "fst (SetDeadline (socket ?tt')) = None"
  proof -
    have e: "lastTxnId ?tt' + 1 = lastTxnId tt + 2" unfolding a by simp
    show ?thesis
      unfolding ExecuteRequest_lastTxnId [OF ok'] ExecuteRequest_tx [OF ok'] e by simp
  qed
  from a b c d show ?thesis by blast
qed

theorem ExecuteRequest_increment_persists_witness:
  "fst (SetDeadline (socket \<lparr>socket = (connWithInput [])\<lparr>writeResults := [Some ErrClosed]\<rparr>,
                              lastTxnId = 65534, logged = []\<rparr>)) = None \<and>
   fst (ExecuteRequest \<lparr>socket = (connWithInput [])\<lparr>writeResults := [Some ErrClosed]\<rparr>,
                         lastTxnId = 65534, logged = []\<rparr>
          \<lparr>unitId = 1, functionCode = 3, payload = [0, 0, 0, 2]\<rparr>) = Inl (ErrIO ErrClosed) \<and>
   lastTxnId (snd (ExecuteRequest
        \<lparr>socket = (connWithInput [])\<lparr>writeResults := [Some ErrClosed]\<rparr>,
         lastTxnId = 65534, logged = []\<rparr>
        \<lparr>unitId = 1, functionCode = 3, payload = [0, 0, 0, 2]\<rparr>)) = 65535 \<and>
   lastTxnId (snd (ExecuteRequest (snd (ExecuteRequest
        \<lparr>socket = (connWithInput [])\<lparr>writeResults := [Some ErrClosed]\<rparr>,
         lastTxnId = 65534, logged = []\<rparr>
        \<lparr>unitId = 1, functionCode = 3, payload = [0, 0, 0, 2]\<rparr>))
        \<lparr>unitId = 1, functionCode = 3, payload = [0, 0, 0, 2]\<rparr>)) = 0"
proof -
  let ?T = "\<lparr>socket = (connWithInput [])\<lparr>writeResults := [Some ErrClosed]\<rparr>,
             lastTxnId = 65534, logged = []\<rparr>"
  let ?P = "\<lparr>unitId = 1, functionCode = 3, payload = [0, 0, 0, 2]\<rparr>"
  have d: "fst (SetDeadline (socket ?T)) = None"
    by (simp add: SetDeadline_def connWithInput_def)
  have r: "ExecuteRequest ?T ?P =
             (Inl (ErrIO ErrClosed),
              \<lparr>socket = connWithInput [], lastTxnId = 65535, logged = []\<rparr>)"
    by (simp add: ExecuteRequest_def SetDeadline_def Write_def connWithInput_def Let_def)
  have d': "fst (SetDeadline (socket (snd (ExecuteRequest ?T ?P)))) = None"
    unfolding r by (simp add: SetDeadline_def connWithInput_def)
  from ExecuteRequest_increment_persists [OF d, of ?P ?P] d d' r show ?thesis
    by simp
qed

text \<open>
  C6, as amended. Each call to \<open>ExecuteRequest\<close> whose \<open>SetDeadline\<close> succeeds advances
  the 16-bit transaction counter by one before it encodes the request, wrapping from 65535
  back to 0; the frame it writes carries the advanced counter, and when the write fails
  nothing is put on the wire. Every call whose \<open>SetDeadline\<close> fails returns that error,
  leaves the counter as it was and writes nothing. With the counter starting at 0 the first
  request frame carries transaction id 1 and its first four wire bytes are \<open>00 01 00 00\<close>.
\<close>

theorem ExecuteRequest_advances_counter:
  "(fst (SetDeadline (socket tt)) = None \<longrightarrow>
      lastTxnId (snd (ExecuteRequest tt req)) = lastTxnId tt + 1 \<and>
      (lastTxnId tt = 65535 \<longrightarrow> lastTxnId (snd (ExecuteRequest tt req)) = 0) \<and>
      (fst (Write (assembleMBAPFrame (lastTxnId tt + 1) req)
                  (snd (SetDeadline (socket tt)))) = None \<longrightarrow>
         tx (socket (snd (ExecuteRequest tt req))) =
           tx (socket tt) @ [assembleMBAPFrame (lastTxnId tt + 1) req]) \<and>
      (fst (Write (assembleMBAPFrame (lastTxnId tt + 1) req)
                  (snd (SetDeadline (socket tt)))) \<noteq> None \<longrightarrow>
         tx (socket (snd (ExecuteRequest tt req))) = tx (socket tt)) \<and>
      (lastTxnId tt = 0 \<longrightarrow>
         lastTxnId (snd (ExecuteRequest tt req)) = 1 \<and>
         take 4 (assembleMBAPFrame (lastTxnId tt + 1) req) = [0x00, 0x01, 0x00, 0x00])) \<and>
   (SetDeadline (socket tt) = (Some e0, c1) \<longrightarrow>
      ExecuteRequest tt req = (Inl (ErrIO e0), tt\<lparr>socket := c1\<rparr>) \<and>
      lastTxnId (snd (ExecuteRequest tt req)) = lastTxnId tt \<and>
      tx (socket (snd (ExecuteRequest tt req))) = tx (socket tt))"
proof -
  have good:
    "lastTxnId (snd (ExecuteRequest tt req)) = lastTxnId tt + 1 \<and>
      (lastTxnId tt = 65535 \<longrightarrow> lastTxnId (snd (ExecuteRequest tt req)) = 0) \<and>
      (fst (Write (assembleMBAPFrame (lastTxnId tt + 1) req)
                  (snd (SetDeadline (socket tt)))) = None \<longrightarrow>
         tx (socket (snd (ExecuteRequest tt req))) =
           tx (socket tt) @ [assembleMBAPFrame (lastTxnId tt + 1) req]) \<and>
      (fst (Write (assembleMBAPFrame (lastTxnId tt + 1) req)
                  (snd (SetDeadline (socket tt)))) \<noteq> None \<longrightarrow>
         tx (socket (snd (ExecuteRequest tt req))) = tx (socket tt)) \<and>
      (lastTxnId tt = 0 \<longrightarrow>
         lastTxnId (snd (ExecuteRequest tt req)) = 1 \<and>
         take 4 (assembleMBAPFrame (lastTxnId tt + 1) req) = [0x00, 0x01, 0x00, 0x00])"
    if ok: "fst (SetDeadline (socket tt)) = None"
  proof -
    have a: "lastTxnId (snd (ExecuteRequest tt req)) = lastTxnId tt + 1"
      by (rule ExecuteRequest_lastTxnId [OF ok])
    have b: "lastTxnId tt = 65535 \<longrightarrow> lastTxnId (snd (ExecuteRequest tt req)) = 0"
      unfolding a by simp
    have c: "fst (Write (assembleMBAPFrame (lastTxnId tt + 1) req)
                       (snd (SetDeadline (socket tt)))) = None \<longrightarrow>
              tx (socket (snd (ExecuteRequest tt req))) =
                tx (socket tt) @ [assembleMBAPFrame (lastTxnId tt + 1) req]"
      unfolding ExecuteRequest_tx [OF ok] by simp
    have c': "fst (Write (assembleMBAPFrame (lastTxnId tt + 1) req)
                       (snd (SetDeadline (socket tt)))) \<noteq> None \<longrightarrow>
              tx (socket (snd (ExecuteRequest tt req))) = tx (socket tt)"
      unfolding ExecuteRequest_tx [OF ok] by simp
    have d: "lastTxnId tt = 0 \<longrightarrow>
              lastTxnId (snd (ExecuteRequest tt req)) = 1 \<and>
              take 4 (assembleMBAPFrame (lastTxnId tt + 1) req) = [0x00, 0x01, 0x00, 0x00]"
      unfolding a by (simp add: assemble_bytes)
    from a b c c' d show ?thesis by blast
  qed
  have bad:
    "ExecuteRequest tt req = (Inl (ErrIO e0), tt\<lparr>socket := c1\<rparr>) \<and>
      lastTxnId (snd (ExecuteRequest tt req)) = lastTxnId tt \<and>
      tx (socket (snd (ExecuteRequest tt req))) = tx (socket tt)"
    if fail: "SetDeadline (socket tt) = (Some e0, c1)"
  proof -
    have r: "ExecuteRequest tt req = (Inl (ErrIO e0), tt\<lparr>socket := c1\<rparr>)"
      using fail by (simp add: ExecuteRequest_def)
    have "tx c1 = tx (socket tt)"
      using SetDeadline_keeps(2) [of "socket tt"] fail by simp
    with r show ?thesis by simp
  qed
  from good bad show ?thesis by blast
qed

theorem ExecuteRequest_advances_counter_witness:
  "fst (SetDeadline (socket (newTCPTransport (connWithInput [])))) = None \<and>
   lastTxnId (newTCPTransport (connWithInput [])) = 0 \<and>
   lastTxnId (snd (ExecuteRequest (newTCPTransport (connWithInput []))
       \<lparr>unitId = 1, functionCode = 3, payload = [0, 0, 0, 2]\<rparr>)) = 1 \<and>
   tx (socket (snd (ExecuteRequest (newTCPTransport (connWithInput []))
       \<lparr>unitId = 1, functionCode = 3, payload = [0, 0, 0, 2]\<rparr>))) =
     [[0x00, 0x01, 0x00, 0x00, 0x00, 0x06, 0x01, 0x03, 0x00, 0x00, 0x00, 0x02]] \<and>
   fst (SetDeadline (socket \<lparr>socket = connWithInput [], lastTxnId = 65535, logged = []\<rparr>))
     = None \<and>
   lastTxnId (snd (ExecuteRequest
       \<lparr>socket = connWithInput [], lastTxnId = 65535, logged = []\<rparr>
       \<lparr>unitId = 1, functionCode = 3, payload = [0, 0, 0, 2]\<rparr>)) = 0 \<and>
   SetDeadline (socket \<lparr>socket = (connWithInput [])\<lparr>deadlineResults := [Some ErrClosed]\<rparr>,
                          lastTxnId = 7, logged = []\<rparr>) =
     (Some ErrClosed, connWithInput []) \<and>
   ExecuteRequest \<lparr>socket = (connWithInput [])\<lparr>deadlineResults := [Some ErrClosed]\<rparr>,
                    lastTxnId = 7, logged = []\<rparr>
       \<lparr>unitId = 1, functionCode = 3, payload = [0, 0, 0, 2]\<rparr> =
     (Inl (ErrIO ErrClosed), \<lparr>socket = connWithInput [], lastTxnId = 7, logged = []\<rparr>)"
proof -
  let ?P = "\<lparr>unitId = 1, functionCode = 3, payload = [0, 0, 0, 2]\<rparr>"
  let ?N = "newTCPTransport (connWithInput [])"
  let ?M = "\<lparr>socket = connWithInput [], lastTxnId = 65535, logged = []\<rparr>"
  let ?F = "\<lparr>socket = (connWithInput [])\<lparr>deadlineResults := [Some ErrClosed]\<rparr>,
             lastTxnId = 7, logged = []\<rparr>"
  have d0: "fst (SetDeadline (socket ?N)) = None"
    by (simp add: SetDeadline_def connWithInput_def newTCPTransport_def)
  have z: "lastTxnId ?N = 0"
    by (simp add: newTCPTransport_def)
  have w: "fst (Write (assembleMBAPFrame (lastTxnId ?N + 1) ?P)
                 (snd (SetDeadline (socket ?N)))) = None"
    by (simp add: SetDeadline_def Write_def connWithInput_def newTCPTransport_def)
  have t: "tx (socket ?N) = []"
    by (simp add: connWithInput_def newTCPTransport_def)
  have f: "assembleMBAPFrame (lastTxnId ?N + 1) ?P =
             [0x00, 0x01, 0x00, 0x00, 0x00, 0x06, 0x01, 0x03, 0x00, 0x00, 0x00, 0x02]"
    by (simp add: assembleMBAPFrame_def newTCPTransport_def)
  have d1: "fst (SetDeadline (socket ?M)) = None"
    by (simp add: SetDeadline_def connWithInput_def)
  have m: "lastTxnId ?M = 65535" by simp
  have df: "SetDeadline (socket ?F) = (Some ErrClosed, connWithInput [])"
    by (simp add: SetDeadline_def connWithInput_def)
  note goodN = ExecuteRequest_advances_counter
      [where tt = ?N and req = ?P, THEN conjunct1, THEN mp, OF d0]
  note goodM = ExecuteRequest_advances_counter
      [where tt = ?M and req = ?P, THEN conjunct1, THEN mp, OF d1]
  note badF = ExecuteRequest_advances_counter
      [where tt = ?F and req = ?P and ?e0.0 = ErrClosed and ?c1.0 = "connWithInput []",
       THEN conjunct2, THEN mp, OF df]
  have c1: "lastTxnId (snd (ExecuteRequest ?N ?P)) = 1"
    using goodN [THEN conjunct1] z by simp
  have c2: "tx (socket (snd (ExecuteRequest ?N ?P))) =
     [[0x00, 0x01, 0x00, 0x00, 0x00, 0x06, 0x01, 0x03, 0x00, 0x00, 0x00, 0x02]]"
    using goodN [THEN conjunct2, THEN conjunct2, THEN conjunct1, THEN mp, OF w]
    unfolding t f by simp
  have c3: "lastTxnId (snd (ExecuteRequest ?M ?P)) = 0"
    by (rule goodM [THEN conjunct2, THEN conjunct1, THEN mp, OF m])
  have c4: "ExecuteRequest ?F ?P =
     (Inl (ErrIO ErrClosed), \<lparr>socket = connWithInput [], lastTxnId = 7, logged = []\<rparr>)"
    using badF [THEN conjunct1] by simp
  show ?thesis
    by (intro conjI) (rule d0, rule z, rule c1, rule c2, rule d1, rule c3, rule df, rule c4)
qed

text \<open>
  The claim as it was stated fails on a call whose \<open>SetDeadline\<close> returns an error, as it
  does on a closed connection: the call returns before the increment.
\<close>

theorem ExecuteRequest_counter_counterexample:
  "lastTxnId (snd (ExecuteRequest
      \<lparr>socket = (connWithInput [])\<lparr>deadlineResults := [Some ErrClosed]\<rparr>,
       lastTxnId = 0, logged = []\<rparr>
      \<lparr>unitId = 1, functionCode = 3, payload = [0, 0, 0, 2]\<rparr>))
   \<noteq> lastTxnId \<lparr>socket = (connWithInput [])\<lparr>deadlineResults := [Some ErrClosed]\<rparr>,
                 lastTxnId = 0, logged = []\<rparr> + 1"
  by (simp add: ExecuteRequest_def SetDeadline_def connWithInput_def)

section \<open>The client's matching loop\<close>

lemma ReadFull_drop: "ReadFull n c = (r, c') \<Longrightarrow> \<exists>k. rx c' = drop k (rx c)"
proof -
  assume a: "ReadFull n c = (r, c')"
  have "rx c' = drop n (rx c) \<or> rx c' = drop 0 (rx c) \<or> rx c' = drop (length (rx c)) (rx c)"
    using a by (auto simp: ReadFull_def split: if_splits)
  then show ?thesis by blast
qed

lemma readMBAPFrame_drop:
  assumes "readMBAPFrame tt = (r, tt')"
  shows "\<exists>k. rx (socket tt') = drop k (rx (socket tt))"
proof -
  have two: "\<exists>k. rx c2 = drop k (rx c)"
    if "ReadFull n c = (r1, c1)" "ReadFull m c1 = (r2, c2)" for n m c c1 c2 r1 r2
  proof -
    from ReadFull_drop [OF that(1)] obtain i where "rx c1 = drop i (rx c)" ..
    moreover from ReadFull_drop [OF that(2)] obtain j where "rx c2 = drop j (rx c1)" ..
    ultimately have "rx c2 = drop (i + j) (rx c)" by (simp add: add.commute)
    then show ?thesis ..
  qed
  from assms show ?thesis
    by (auto simp: readMBAPFrame_def Let_def split: prod.splits sum.splits if_splits
             dest: ReadFull_drop two)
qed

lemma readResponse_skip_proto:
  "readMBAPFrame tt = (Inl ErrUnknownProtocolId, tt1) \<Longrightarrow> readResponse tt = readResponse tt1"
  by (simp add: readResponse.simps [of tt])

lemma readResponse_skip_txn:
  assumes "readMBAPFrame tt = (Inr (p, txn), tt1)" and "txn \<noteq> lastTxnId tt"
  shows "readResponse tt =
           readResponse (tt1\<lparr>logged := logged tt1 @ [UnexpectedTxnId (lastTxnId tt) txn]\<rparr>)"
proof -
  from readMBAPFrame_keeps(1) [OF assms(1)] have k: "lastTxnId tt1 = lastTxnId tt" .
  with assms show ?thesis by (simp add: readResponse.simps [of tt])
qed

lemma readResponse_match:
  assumes "readMBAPFrame tt = (Inr (p, lastTxnId tt), tt1)"
  shows "readResponse tt = (Inr p, tt1)"
proof -
  from readMBAPFrame_keeps(1) [OF assms(1)] have k: "lastTxnId tt1 = lastTxnId tt" .
  with assms show ?thesis by (simp add: readResponse.simps [of tt])
qed

lemma readResponse_final:
  "readResponse tt = (r, tt') \<Longrightarrow>
     \<exists>tt0 k. lastTxnId tt0 = lastTxnId tt \<and> rx (socket tt0) = drop k (rx (socket tt)) \<and>
       (case r of
          Inr p \<Rightarrow> readMBAPFrame tt0 = (Inr (p, lastTxnId tt), tt')
        | Inl e \<Rightarrow> e \<noteq> ErrUnknownProtocolId \<and> readMBAPFrame tt0 = (Inl e, tt'))"
proof (induction tt arbitrary: r tt' rule: readResponse.induct)
  case (1 tt)
  obtain x tt1 where f: "readMBAPFrame tt = (x, tt1)" by (cases "readMBAPFrame tt")
  note k = readMBAPFrame_keeps(1) [OF f]
  from readMBAPFrame_drop [OF f] obtain i where i: "rx (socket tt1) = drop i (rx (socket tt))" ..
  show ?case
  proof (cases x)
    case (Inl e)
    show ?thesis
    proof (cases "e = ErrUnknownProtocolId")
      case True
      with 1(3) f Inl have "readResponse tt1 = (r, tt')"
        by (simp add: readResponse.simps [of tt])
      from 1(1) [OF f [symmetric] Inl True this] obtain tt0 j where
        "lastTxnId tt0 = lastTxnId tt1" "rx (socket tt0) = drop j (rx (socket tt1))"
        "(case r of
          Inr p \<Rightarrow> readMBAPFrame tt0 = (Inr (p, lastTxnId tt1), tt')
        | Inl e \<Rightarrow> e \<noteq> ErrUnknownProtocolId \<and> readMBAPFrame tt0 = (Inl e, tt'))"
        by blast
      with k i have "lastTxnId tt0 = lastTxnId tt \<and> rx (socket tt0) = drop (i + j) (rx (socket tt)) \<and>
        (case r of
          Inr p \<Rightarrow> readMBAPFrame tt0 = (Inr (p, lastTxnId tt), tt')
        | Inl e \<Rightarrow> e \<noteq> ErrUnknownProtocolId \<and> readMBAPFrame tt0 = (Inl e, tt'))"
        by (auto simp: add.commute split: sum.splits)
      then show ?thesis by blast
    next
      case False
      with 1(3) f Inl have "tt' = tt1" "r = Inl e" by (simp_all add: readResponse.simps [of tt])
      with f Inl False have "lastTxnId tt = lastTxnId tt \<and>
        rx (socket tt) = drop 0 (rx (socket tt)) \<and>
        (case r of
          Inr p \<Rightarrow> readMBAPFrame tt = (Inr (p, lastTxnId tt), tt')
        | Inl e \<Rightarrow> e \<noteq> ErrUnknownProtocolId \<and> readMBAPFrame tt = (Inl e, tt'))"
        by simp
      then show ?thesis by blast
    qed
  next
    case (Inr y)
    obtain res txnId where y: "y = (res, txnId)" by (cases y)
    show ?thesis
    proof (cases "lastTxnId tt1 \<noteq> txnId")
      case True
      let ?tt2 = "tt1\<lparr>logged := logged tt1 @ [UnexpectedTxnId (lastTxnId tt1) txnId]\<rparr>"
      from True 1(3) f Inr y have "readResponse ?tt2 = (r, tt')"
        by (simp add: readResponse.simps [of tt])
      from 1(2) [OF f [symmetric] Inr y [symmetric] True this] obtain tt0 j where
        "lastTxnId tt0 = lastTxnId ?tt2" "rx (socket tt0) = drop j (rx (socket ?tt2))"
        "(case r of
          Inr p \<Rightarrow> readMBAPFrame tt0 = (Inr (p, lastTxnId ?tt2), tt')
        | Inl e \<Rightarrow> e \<noteq> ErrUnknownProtocolId \<and> readMBAPFrame tt0 = (Inl e, tt'))"
        by blast
      with k i have "lastTxnId tt0 = lastTxnId tt \<and> rx (socket tt0) = drop (i + j) (rx (socket tt)) \<and>
        (case r of
          Inr p \<Rightarrow> readMBAPFrame tt0 = (Inr (p, lastTxnId tt), tt')
        | Inl e \<Rightarrow> e \<noteq> ErrUnknownProtocolId \<and> readMBAPFrame tt0 = (Inl e, tt'))"
        by (auto simp: add.commute split: sum.splits)
      then show ?thesis by blast
    next
      case False
      with 1(3) f Inr y have "tt' = tt1" "r = Inr res" by (simp_all add: readResponse.simps [of tt])
      with f Inr y False k have "lastTxnId tt = lastTxnId tt \<and>
        rx (socket tt) = drop 0 (rx (socket tt)) \<and>
        (case r of
          Inr p \<Rightarrow> readMBAPFrame tt = (Inr (p, lastTxnId tt), tt')
        | Inl e \<Rightarrow> e \<noteq> ErrUnknownProtocolId \<and> readMBAPFrame tt = (Inl e, tt'))"
        by simp
      then show ?thesis by blast
    qed
  qed
qed


text \<open>
  C2. The matching loop of the client, \<open>readResponse\<close>, entered by \<open>ExecuteRequest\<close>
  after it has sent the request under the transaction id \<open>T = lastTxnId\<close>. A frame that
  \<open>readMBAPFrame\<close> rejects with \<open>ErrUnknownProtocolId\<close> is dropped and the loop reads
  on; a frame that decodes with a transaction id other than \<open>T\<close> is dropped with a warning
  and the loop reads on; a frame that decodes with transaction id \<open>T\<close> ends the loop with
  its PDU; any other error ends the loop with that error. Conversely, a PDU the loop returns
  was decoded, further along the same input, from a frame carrying exactly \<open>T\<close>, and an
  error it returns is the one a read further along the input produced and is never
  \<open>ErrUnknownProtocolId\<close>. The loop does not change \<open>T\<close>.
\<close>

theorem readResponse_matching:
  "(readMBAPFrame tt = (Inl ErrUnknownProtocolId, tt1) \<longrightarrow> readResponse tt = readResponse tt1) \<and>
   (readMBAPFrame tt = (Inr (p, txn), tt1) \<and> txn \<noteq> lastTxnId tt \<longrightarrow>
      readResponse tt =
        readResponse (tt1\<lparr>logged := logged tt1 @ [UnexpectedTxnId (lastTxnId tt) txn]\<rparr>)) \<and>
   (readMBAPFrame tt = (Inr (p, lastTxnId tt), tt1) \<longrightarrow> readResponse tt = (Inr p, tt1)) \<and>
   (readMBAPFrame tt = (Inl e, tt1) \<and> e \<noteq> ErrUnknownProtocolId \<longrightarrow>
      readResponse tt = (Inl e, tt1)) \<and>
   (readResponse tt = (Inr p', tt') \<longrightarrow>
      (\<exists>tt0 k. lastTxnId tt0 = lastTxnId tt \<and> rx (socket tt0) = drop k (rx (socket tt)) \<and>
         readMBAPFrame tt0 = (Inr (p', lastTxnId tt), tt'))) \<and>
   (readResponse tt = (Inl e', tt') \<longrightarrow>
      e' \<noteq> ErrUnknownProtocolId \<and>
      (\<exists>tt0 k. lastTxnId tt0 = lastTxnId tt \<and> rx (socket tt0) = drop k (rx (socket tt)) \<and>
         readMBAPFrame tt0 = (Inl e', tt'))) \<and>
   lastTxnId (snd (readResponse tt)) = lastTxnId tt \<and>
   (SetDeadline (socket tt) = (None, c1) \<and>
    Write (assembleMBAPFrame (lastTxnId tt + 1) req) c1 = (None, c2) \<longrightarrow>
      ExecuteRequest tt req = readResponse (tt\<lparr>lastTxnId := lastTxnId tt + 1, socket := c2\<rparr>))"
proof -
  have a: "readMBAPFrame tt = (Inl ErrUnknownProtocolId, tt1) \<longrightarrow>
             readResponse tt = readResponse tt1"
    using readResponse_skip_proto by blast
  have b: "readMBAPFrame tt = (Inr (p, txn), tt1) \<and> txn \<noteq> lastTxnId tt \<longrightarrow>
      readResponse tt =
        readResponse (tt1\<lparr>logged := logged tt1 @ [UnexpectedTxnId (lastTxnId tt) txn]\<rparr>)"
    using readResponse_skip_txn by blast
  have c: "readMBAPFrame tt = (Inr (p, lastTxnId tt), tt1) \<longrightarrow> readResponse tt = (Inr p, tt1)"
    using readResponse_match by blast
  have d: "readMBAPFrame tt = (Inl e, tt1) \<and> e \<noteq> ErrUnknownProtocolId \<longrightarrow>
      readResponse tt = (Inl e, tt1)"
    using readResponse_abort by blast
  have e: "readResponse tt = (Inr p', tt') \<longrightarrow>
      (\<exists>tt0 k. lastTxnId tt0 = lastTxnId tt \<and> rx (socket tt0) = drop k (rx (socket tt)) \<and>
         readMBAPFrame tt0 = (Inr (p', lastTxnId tt), tt'))"
    using readResponse_final [of tt "Inr p'" tt'] by simp
  have f: "readResponse tt = (Inl e', tt') \<longrightarrow>
      e' \<noteq> ErrUnknownProtocolId \<and>
      (\<exists>tt0 k. lastTxnId tt0 = lastTxnId tt \<and> rx (socket tt0) = drop k (rx (socket tt)) \<and>
         readMBAPFrame tt0 = (Inl e', tt'))"
    using readResponse_final [of tt "Inl e'" tt'] by auto
  have g: "lastTxnId (snd (readResponse tt)) = lastTxnId tt"
    using readResponse_keeps [of tt "fst (readResponse tt)" "snd (readResponse tt)"] by simp
  have h: "SetDeadline (socket tt) = (None, c1) \<and>
    Write (assembleMBAPFrame (lastTxnId tt + 1) req) c1 = (None, c2) \<longrightarrow>
      ExecuteRequest tt req = readResponse (tt\<lparr>lastTxnId := lastTxnId tt + 1, socket := c2\<rparr>)"
    by (simp add: ExecuteRequest_def Let_def)
  from a b c d e f g h show ?thesis by blast
qed


theorem readResponse_matching_witness:
  "ExecuteRequest
     (newTCPTransport (connWithInput
        ([0, 2, 0, 0, 0, 2, 1, 3] @ [0, 1, 0, 5, 0, 2, 1, 3] @ [0, 1, 0, 0, 0, 3, 1, 3, 9])))
     \<lparr>unitId = 1, functionCode = 3, payload = [0, 0, 0, 2]\<rparr> =
   (Inr \<lparr>unitId = 1, functionCode = 3, payload = [9]\<rparr>,
    \<lparr>socket = (connWithInput [])\<lparr>tx := [[0, 1, 0, 0, 0, 6, 1, 3, 0, 0, 0, 2]]\<rparr>,
     lastTxnId = 1,
     logged = [UnexpectedTxnId 1 2, UnexpectedProtocolId 5]\<rparr>) \<and>
   (\<exists>tt0 k. lastTxnId tt0 = 1 \<and>
      rx (socket tt0) =
        drop k ([0, 2, 0, 0, 0, 2, 1, 3] @ [0, 1, 0, 5, 0, 2, 1, 3] @ [0, 1, 0, 0, 0, 3, 1, 3, 9]) \<and>
      fst (readMBAPFrame tt0) = Inr (\<lparr>unitId = 1, functionCode = 3, payload = [9]\<rparr>, 1)) \<and>
   readResponse \<lparr>socket = connWithInput [0, 2, 0, 0, 0, 2, 1], lastTxnId = 1, logged = []\<rparr> =
     (Inl (ErrIO ErrDeadlineExceeded),
      \<lparr>socket = connWithInput [], lastTxnId = 1, logged = []\<rparr>)"
proof -
  let ?req = "[0, 1, 0, 0, 0, 6, 1, 3, 0, 0, 0, 2] :: byte list"
  let ?in = "[0, 2, 0, 0, 0, 2, 1, 3] @ [0, 1, 0, 5, 0, 2, 1, 3] @ [0, 1, 0, 0, 0, 3, 1, 3, 9]
               :: byte list"
  let ?E = "newTCPTransport (connWithInput ?in)"
  let ?P = "\<lparr>unitId = 1, functionCode = 3, payload = [0, 0, 0, 2]\<rparr>"
  let ?Q = "\<lparr>unitId = 1, functionCode = 3, payload = [9]\<rparr>"
  let ?C = "\<lambda>bs. (connWithInput bs)\<lparr>tx := [?req]\<rparr>"
  let ?T0 = "\<lparr>socket = ?C ?in, lastTxnId = 1, logged = []\<rparr>"
  let ?T1 = "\<lparr>socket = ?C ([0, 1, 0, 5, 0, 2, 1, 3] @ [0, 1, 0, 0, 0, 3, 1, 3, 9]),
      lastTxnId = 1, logged = []\<rparr>"
  let ?T1' = "\<lparr>socket = ?C ([0, 1, 0, 5, 0, 2, 1, 3] @ [0, 1, 0, 0, 0, 3, 1, 3, 9]),
      lastTxnId = 1, logged = [UnexpectedTxnId 1 2]\<rparr>"
  let ?T2 = "\<lparr>socket = ?C [0, 1, 0, 0, 0, 3, 1, 3, 9],
      lastTxnId = 1, logged = [UnexpectedTxnId 1 2, UnexpectedProtocolId 5]\<rparr>"
  let ?T3 = "\<lparr>socket = ?C [], lastTxnId = 1,
      logged = [UnexpectedTxnId 1 2, UnexpectedProtocolId 5]\<rparr>"
  let ?A = "\<lparr>socket = connWithInput [0, 2, 0, 0, 0, 2, 1], lastTxnId = 1, logged = []\<rparr>"
  let ?A' = "\<lparr>socket = connWithInput [], lastTxnId = 1, logged = []\<rparr>"
  note defs = readMBAPFrame_def ReadFull_def connWithInput_def subslice_def Let_def
    mbapHeaderLength_def maxTCPFrameLength_def
  have sd: "SetDeadline (socket ?E) = (None, connWithInput ?in)"
    by (simp add: SetDeadline_def connWithInput_def newTCPTransport_def)
  have wr: "Write (assembleMBAPFrame (lastTxnId ?E + 1) ?P) (connWithInput ?in) = (None, ?C ?in)"
    by (simp add: Write_def connWithInput_def newTCPTransport_def assembleMBAPFrame_def)
  have st: "?E\<lparr>lastTxnId := lastTxnId ?E + 1, socket := ?C ?in\<rparr> = ?T0"
    by (simp add: newTCPTransport_def)
  have r0: "readMBAPFrame ?T0 = (Inr (\<lparr>unitId = 1, functionCode = 3, payload = []\<rparr>, 2), ?T1)"
    by (simp add: defs)
  have n0: "(2 :: uint16) \<noteq> lastTxnId ?T0" by simp
  have u0: "?T1\<lparr>logged := logged ?T1 @ [UnexpectedTxnId (lastTxnId ?T0) 2]\<rparr> = ?T1'" by simp
  have r1: "readMBAPFrame ?T1' = (Inl ErrUnknownProtocolId, ?T2)"
    by (simp add: defs)
  have r2: "readMBAPFrame ?T2 = (Inr (?Q, lastTxnId ?T2), ?T3)"
    by (simp add: defs)
  have ra: "readMBAPFrame ?A = (Inl (ErrIO ErrDeadlineExceeded), ?A')"
    by (simp add: defs)
  have na: "ErrIO ErrDeadlineExceeded \<noteq> ErrUnknownProtocolId" by simp
  have s: "ExecuteRequest ?E ?P = readResponse ?T0"
    using readResponse_matching [where tt = ?E and ?c1.0 = "connWithInput ?in"
        and ?c2.0 = "?C ?in" and req = ?P,
        THEN conjunct2, THEN conjunct2, THEN conjunct2, THEN conjunct2, THEN conjunct2,
        THEN conjunct2, THEN conjunct2, THEN mp, OF conjI [OF sd wr]]
    unfolding st .
  have s0: "readResponse ?T0 = readResponse ?T1'"
    using readResponse_matching
      [of ?T0 ?T1 "\<lparr>unitId = 1, functionCode = 3, payload = []\<rparr>" 2,
       THEN conjunct2, THEN conjunct1, THEN mp, OF conjI [OF r0 n0]]
    unfolding u0 .
  have s1: "readResponse ?T1' = readResponse ?T2"
    by (rule readResponse_matching [of ?T1' ?T2, THEN conjunct1, THEN mp, OF r1])
  have s2: "readResponse ?T2 = (Inr ?Q, ?T3)"
    by (rule readResponse_matching
          [of ?T2 ?T3 ?Q, THEN conjunct2, THEN conjunct2, THEN conjunct1, THEN mp, OF r2])
  have res: "readResponse ?T0 = (Inr ?Q, ?T3)" unfolding s0 s1 s2 ..
  have or: "\<exists>tt0 k. lastTxnId tt0 = 1 \<and> rx (socket tt0) = drop k ?in \<and>
      fst (readMBAPFrame tt0) = Inr (?Q, 1)"
  proof -
    from readResponse_matching [where tt = ?T0 and p' = ?Q and tt' = ?T3,
        THEN conjunct2, THEN conjunct2, THEN conjunct2, THEN conjunct2, THEN conjunct1,
        THEN mp, OF res]
    obtain tt0 k where "lastTxnId tt0 = lastTxnId ?T0"
      "rx (socket tt0) = drop k (rx (socket ?T0))"
      "readMBAPFrame tt0 = (Inr (?Q, lastTxnId ?T0), ?T3)"
      by blast
    then have "lastTxnId tt0 = 1 \<and> rx (socket tt0) = drop k ?in \<and>
      fst (readMBAPFrame tt0) = Inr (?Q, 1)"
      by (simp add: connWithInput_def)
    then show ?thesis by blast
  qed
  have ab: "readResponse ?A = (Inl (ErrIO ErrDeadlineExceeded), ?A')"
    by (rule readResponse_matching
          [where tt = ?A and e = "ErrIO ErrDeadlineExceeded" and ?tt1.0 = ?A',
           THEN conjunct2, THEN conjunct2, THEN conjunct2, THEN conjunct1, THEN mp,
           OF conjI [OF ra na]])
  show ?thesis
    unfolding s res ab using or by simp
qed

section \<open>The server path\<close>

lemma bytesToUint16_zero_iff:
  "bytesToUint16 BIG_ENDIAN [a, b] = 0 \<longleftrightarrow> a = 0 \<and> b = 0"
proof
  assume "bytesToUint16 BIG_ENDIAN [a, b] = 0"
  then have "unat (bytesToUint16 BIG_ENDIAN [a, b]) = 0" by simp
  then have "unat a = 0 \<and> unat b = 0" unfolding unat_bytesToUint16 by simp
  then show "a = 0 \<and> b = 0" by (simp add: unat_eq_0)
next
  assume "a = 0 \<and> b = 0"
  then show "bytesToUint16 BIG_ENDIAN [a, b] = 0" by simp
qed

lemma uint16ToBytes_bytesToUint16:
  "uint16ToBytes BIG_ENDIAN (bytesToUint16 BIG_ENDIAN [a, b]) = [a, b]"
  by (simp only: bytesToUint16.simps uint16ToBytes.simps be16_high be16_low)

text \<open>
  C4. The server path reads one frame and does not retry. When \<open>SetDeadline\<close> fails
  \<open>ReadRequest\<close> returns that error. Once the deadline is set,
  \<open>ReadRequest\<close> returns whatever error the single call of \<open>readMBAPFrame\<close> returns,
  \<open>ErrUnknownProtocolId\<close> included; on success it returns the PDU and records the frame's
  transaction id. A \<open>WriteResponse\<close> that follows hands the socket the frame built with
  exactly that id: when the socket's \<open>Write\<close> of that frame succeeds the frame is on the
  wire and \<open>WriteResponse\<close> returns no error, and when it fails \<open>WriteResponse\<close>
  returns that error and the wire is as before.
  On the wire: a well-formed frame is consumed alone, the bytes after it stay unread; with
  protocol id 0 its transaction id is recorded and the response written starts with the same
  two bytes; with any other protocol id the call fails with \<open>ErrUnknownProtocolId\<close> even
  when a valid frame follows, and the recorded id stays as it was.
\<close>

theorem ReadRequest_single_shot:
  "(SetDeadline (socket tt) = (Some e0, c1) \<longrightarrow>
      ReadRequest tt = (Inl (ErrIO e0), tt\<lparr>socket := c1\<rparr>)) \<and>
   (SetDeadline (socket tt) = (None, c1) \<longrightarrow>
      (readMBAPFrame (tt\<lparr>socket := c1\<rparr>) = (Inl e, tt1) \<longrightarrow>
         ReadRequest tt = (Inl e, tt1)) \<and>
      (readMBAPFrame (tt\<lparr>socket := c1\<rparr>) = (Inr (p, txn), tt1) \<longrightarrow>
         ReadRequest tt = (Inr p, tt1\<lparr>lastTxnId := txn\<rparr>) \<and>
         (Write (assembleMBAPFrame txn res) (socket tt1) = (None, c2) \<longrightarrow>
            WriteResponse (snd (ReadRequest tt)) res =
              (None, tt1\<lparr>lastTxnId := txn, socket := c2\<rparr>) \<and>
            tx c2 = tx (socket tt) @ [assembleMBAPFrame txn res]) \<and>
         (Write (assembleMBAPFrame txn res) (socket tt1) = (Some e', c2) \<longrightarrow>
            WriteResponse (snd (ReadRequest tt)) res =
              (Some (ErrIO e'), tt1\<lparr>lastTxnId := txn, socket := c2\<rparr>) \<and>
            tx c2 = tx (socket tt))) \<and>
      (rx (socket tt) = [t1, t0, p1, p0, l1, l0, u] @ body @ rest \<and>
       int (length body) = int (256 * unat l1 + unat l0) - 1 \<and>
       0 < length body \<and> length body \<le> 253 \<longrightarrow>
         rx (socket (snd (ReadRequest tt))) = rest \<and>
         (if p1 = 0 \<and> p0 = 0
          then fst (ReadRequest tt) =
                 Inr \<lparr>unitId = u, functionCode = body ! 0, payload = drop 1 body\<rparr> \<and>
               unat (lastTxnId (snd (ReadRequest tt))) = 256 * unat t1 + unat t0 \<and>
               take 2 (assembleMBAPFrame (lastTxnId (snd (ReadRequest tt))) res) = [t1, t0] \<and>
               (fst (Write (assembleMBAPFrame (lastTxnId (snd (ReadRequest tt))) res)
                           (socket tt)) = None \<longrightarrow>
                  fst (WriteResponse (snd (ReadRequest tt)) res) = None \<and>
                  tx (socket (snd (WriteResponse (snd (ReadRequest tt)) res))) =
                    tx (socket tt) @
                      [assembleMBAPFrame (lastTxnId (snd (ReadRequest tt))) res])
          else fst (ReadRequest tt) = Inl ErrUnknownProtocolId \<and>
               lastTxnId (snd (ReadRequest tt)) = lastTxnId tt)))"
proof -
  have z: "SetDeadline (socket tt) = (Some e0, c1) \<longrightarrow>
      ReadRequest tt = (Inl (ErrIO e0), tt\<lparr>socket := c1\<rparr>)"
    by (simp add: ReadRequest_def)
  have main:
    "(readMBAPFrame (tt\<lparr>socket := c1\<rparr>) = (Inl e, tt1) \<longrightarrow>
         ReadRequest tt = (Inl e, tt1)) \<and>
      (readMBAPFrame (tt\<lparr>socket := c1\<rparr>) = (Inr (p, txn), tt1) \<longrightarrow>
         ReadRequest tt = (Inr p, tt1\<lparr>lastTxnId := txn\<rparr>) \<and>
         (Write (assembleMBAPFrame txn res) (socket tt1) = (None, c2) \<longrightarrow>
            WriteResponse (snd (ReadRequest tt)) res =
              (None, tt1\<lparr>lastTxnId := txn, socket := c2\<rparr>) \<and>
            tx c2 = tx (socket tt) @ [assembleMBAPFrame txn res]) \<and>
         (Write (assembleMBAPFrame txn res) (socket tt1) = (Some e', c2) \<longrightarrow>
            WriteResponse (snd (ReadRequest tt)) res =
              (Some (ErrIO e'), tt1\<lparr>lastTxnId := txn, socket := c2\<rparr>) \<and>
            tx c2 = tx (socket tt))) \<and>
      (rx (socket tt) = [t1, t0, p1, p0, l1, l0, u] @ body @ rest \<and>
       int (length body) = int (256 * unat l1 + unat l0) - 1 \<and>
       0 < length body \<and> length body \<le> 253 \<longrightarrow>
         rx (socket (snd (ReadRequest tt))) = rest \<and>
         (if p1 = 0 \<and> p0 = 0
          then fst (ReadRequest tt) =
                 Inr \<lparr>unitId = u, functionCode = body ! 0, payload = drop 1 body\<rparr> \<and>
               unat (lastTxnId (snd (ReadRequest tt))) = 256 * unat t1 + unat t0 \<and>
               take 2 (assembleMBAPFrame (lastTxnId (snd (ReadRequest tt))) res) = [t1, t0] \<and>
               (fst (Write (assembleMBAPFrame (lastTxnId (snd (ReadRequest tt))) res)
                           (socket tt)) = None \<longrightarrow>
                  fst (WriteResponse (snd (ReadRequest tt)) res) = None \<and>
                  tx (socket (snd (WriteResponse (snd (ReadRequest tt)) res))) =
                    tx (socket tt) @
                      [assembleMBAPFrame (lastTxnId (snd (ReadRequest tt))) res])
          else fst (ReadRequest tt) = Inl ErrUnknownProtocolId \<and>
               lastTxnId (snd (ReadRequest tt)) = lastTxnId tt))"
    if ok: "SetDeadline (socket tt) = (None, c1)"
  proof -
    let ?tt0 = "tt\<lparr>socket := c1\<rparr>"
    have a: "readMBAPFrame ?tt0 = (Inl e, tt1) \<longrightarrow> ReadRequest tt = (Inl e, tt1)"
      using ok by (simp add: ReadRequest_def)
    have b: "ReadRequest tt = (Inr p, tt1\<lparr>lastTxnId := txn\<rparr>) \<and>
         (Write (assembleMBAPFrame txn res) (socket tt1) = (None, c2) \<longrightarrow>
            WriteResponse (snd (ReadRequest tt)) res =
              (None, tt1\<lparr>lastTxnId := txn, socket := c2\<rparr>) \<and>
            tx c2 = tx (socket tt) @ [assembleMBAPFrame txn res]) \<and>
         (Write (assembleMBAPFrame txn res) (socket tt1) = (Some e', c2) \<longrightarrow>
            WriteResponse (snd (ReadRequest tt)) res =
              (Some (ErrIO e'), tt1\<lparr>lastTxnId := txn, socket := c2\<rparr>) \<and>
            tx c2 = tx (socket tt))"
      if f: "readMBAPFrame ?tt0 = (Inr (p, txn), tt1)"
    proof -
      have r: "ReadRequest tt = (Inr p, tt1\<lparr>lastTxnId := txn\<rparr>)"
        using ok f by (simp add: ReadRequest_def)
      have "tx c1 = tx (socket tt)" using SetDeadline_keeps(2) [of "socket tt"] ok by simp
      with readMBAPFrame_keeps(2) [OF f] have t: "tx (socket tt1) = tx (socket tt)" by simp
      have w1: "WriteResponse (snd (ReadRequest tt)) res =
                  (None, tt1\<lparr>lastTxnId := txn, socket := c2\<rparr>) \<and>
                tx c2 = tx (socket tt) @ [assembleMBAPFrame txn res]"
        if W: "Write (assembleMBAPFrame txn res) (socket tt1) = (None, c2)"
      proof -
        have "tx c2 = tx (socket tt1) @ [assembleMBAPFrame txn res]"
          using Write_tx [of "assembleMBAPFrame txn res" "socket tt1"] W by simp
        with r W t show ?thesis by (simp add: WriteResponse_def)
      qed
      have w2: "WriteResponse (snd (ReadRequest tt)) res =
                  (Some (ErrIO e'), tt1\<lparr>lastTxnId := txn, socket := c2\<rparr>) \<and>
                tx c2 = tx (socket tt)"
        if W: "Write (assembleMBAPFrame txn res) (socket tt1) = (Some e', c2)"
      proof -
        have "tx c2 = tx (socket tt1)"
          using Write_tx [of "assembleMBAPFrame txn res" "socket tt1"] W by simp
        with r W t show ?thesis by (simp add: WriteResponse_def)
      qed
      from r w1 w2 show ?thesis by blast
    qed
    have c: "rx (socket (snd (ReadRequest tt))) = rest \<and>
         (if p1 = 0 \<and> p0 = 0
          then fst (ReadRequest tt) =
                 Inr \<lparr>unitId = u, functionCode = body ! 0, payload = drop 1 body\<rparr> \<and>
               unat (lastTxnId (snd (ReadRequest tt))) = 256 * unat t1 + unat t0 \<and>
               take 2 (assembleMBAPFrame (lastTxnId (snd (ReadRequest tt))) res) = [t1, t0] \<and>
               (fst (Write (assembleMBAPFrame (lastTxnId (snd (ReadRequest tt))) res)
                           (socket tt)) = None \<longrightarrow>
                  fst (WriteResponse (snd (ReadRequest tt)) res) = None \<and>
                  tx (socket (snd (WriteResponse (snd (ReadRequest tt)) res))) =
                    tx (socket tt) @
                      [assembleMBAPFrame (lastTxnId (snd (ReadRequest tt))) res])
          else fst (ReadRequest tt) = Inl ErrUnknownProtocolId \<and>
               lastTxnId (snd (ReadRequest tt)) = lastTxnId tt)"
      if hdr: "rx (socket tt) = [t1, t0, p1, p0, l1, l0, u] @ body @ rest"
        and len: "int (length body) = int (256 * unat l1 + unat l0) - 1"
        and pos: "0 < length body" and max: "length body \<le> 253"
    proof -
      have "rx c1 = rx (socket tt)" using SetDeadline_keeps(1) [of "socket tt"] ok by simp
      with hdr have hdr0: "rx (socket ?tt0) = [t1, t0, p1, p0, l1, l0, u] @ body @ rest" by simp
      have len0: "int (length body) = int (unat (bytesToUint16 BIG_ENDIAN [l1, l0])) - 1"
        unfolding unat_bytesToUint16 by (rule len)
      note fr = readMBAPFrame_frame [OF hdr0 len0 pos max]
      show ?thesis
      proof (cases "p1 = 0 \<and> p0 = 0")
        case True
        define T where "T = bytesToUint16 BIG_ENDIAN [t1, t0]"
        define s1 where "s1 = tt\<lparr>socket := c1\<lparr>rx := rest\<rparr>, lastTxnId := T\<rparr>"
        from True have z: "bytesToUint16 BIG_ENDIAN [p1, p0] = 0" by simp
        have rr: "ReadRequest tt =
                (Inr \<lparr>unitId = u, functionCode = body ! 0, payload = drop 1 body\<rparr>, s1)"
          using ok fr z unfolding s1_def T_def by (simp add: ReadRequest_def)
        have uT: "unat T = 256 * unat t1 + unat t0"
          unfolding T_def by (rule unat_bytesToUint16)
        have tk: "take 2 (assembleMBAPFrame T res) = [t1, t0]"
          unfolding T_def using uint16ToBytes_bytesToUint16 [of t1 t0]
          by (simp add: assembleMBAPFrame_def Let_def del: bytesToUint16.simps uint16ToBytes.simps)
        have wk: "writeResults (socket s1) = writeResults (socket tt)"
          and tk1: "tx (socket s1) = tx (socket tt)"
          using SetDeadline_keeps(2,3) [of "socket tt"] ok by (simp_all add: s1_def)
        have wo: "fst (Write (assembleMBAPFrame T res) (socket s1)) =
                  fst (Write (assembleMBAPFrame T res) (socket tt))"
          using wk by (simp add: Write_def split: list.splits option.splits)
        have wres: "fst (WriteResponse s1 res) = None \<and>
                    tx (socket (snd (WriteResponse s1 res))) =
                      tx (socket tt) @ [assembleMBAPFrame T res]"
          if wok: "fst (Write (assembleMBAPFrame T res) (socket tt)) = None"
        proof -
          obtain c3 where W: "Write (assembleMBAPFrame (lastTxnId s1) res) (socket s1) = (None, c3)"
            using wok wo by (cases "Write (assembleMBAPFrame T res) (socket s1)") (simp add: s1_def)
          have "tx c3 = tx (socket s1) @ [assembleMBAPFrame (lastTxnId s1) res]"
            using Write_tx [of "assembleMBAPFrame (lastTxnId s1) res" "socket s1"] W by simp
          then have "tx c3 = tx (socket tt) @ [assembleMBAPFrame T res]"
            using tk1 by (simp add: s1_def)
          with W show ?thesis by (simp add: WriteResponse_def)
        qed
        have ls: "lastTxnId s1 = T" and rs: "rx (socket s1) = rest" by (simp_all add: s1_def)
        show ?thesis
          unfolding rr using True uT tk wres ls rs by simp
      next
        case False
        then have nz: "bytesToUint16 BIG_ENDIAN [p1, p0] \<noteq> 0"
          using bytesToUint16_zero_iff [of p1 p0] by simp
        have "ReadRequest tt =
                (Inl ErrUnknownProtocolId,
                 tt\<lparr>socket := c1\<lparr>rx := rest\<rparr>,
                    logged := logged tt @ [UnexpectedProtocolId (bytesToUint16 BIG_ENDIAN [p1, p0])]\<rparr>)"
          using ok fr nz by (simp add: ReadRequest_def)
        then show ?thesis using False by simp
      qed
    qed
    from a b c show ?thesis by blast
  qed
  from z main show ?thesis by blast
qed

theorem ReadRequest_single_shot_witness:
  "SetDeadline (socket (newTCPTransport
      (connWithInput ([0x12, 0x34, 0, 0, 0, 3, 1, 3, 9] @ [0, 7, 0, 0, 0, 2, 1, 4])))) =
     (None, connWithInput ([0x12, 0x34, 0, 0, 0, 3, 1, 3, 9] @ [0, 7, 0, 0, 0, 2, 1, 4])) \<and>
   ReadRequest (newTCPTransport
      (connWithInput ([0x12, 0x34, 0, 0, 0, 3, 1, 3, 9] @ [0, 7, 0, 0, 0, 2, 1, 4]))) =
     (Inr \<lparr>unitId = 1, functionCode = 3, payload = [9]\<rparr>,
      \<lparr>socket = connWithInput [0, 7, 0, 0, 0, 2, 1, 4], lastTxnId = 0x1234, logged = []\<rparr>) \<and>
   fst (WriteResponse (snd (ReadRequest (newTCPTransport
      (connWithInput ([0x12, 0x34, 0, 0, 0, 3, 1, 3, 9] @ [0, 7, 0, 0, 0, 2, 1, 4])))))
      \<lparr>unitId = 1, functionCode = 3, payload = [7, 7]\<rparr>) = None \<and>
   tx (socket (snd (WriteResponse (snd (ReadRequest (newTCPTransport
      (connWithInput ([0x12, 0x34, 0, 0, 0, 3, 1, 3, 9] @ [0, 7, 0, 0, 0, 2, 1, 4])))))
      \<lparr>unitId = 1, functionCode = 3, payload = [7, 7]\<rparr>))) =
     [[0x12, 0x34, 0, 0, 0, 4, 1, 3, 7, 7]] \<and>
   SetDeadline (socket (newTCPTransport
      (connWithInput ([0, 1, 0, 5, 0, 2, 1, 3] @ [0, 7, 0, 0, 0, 2, 1, 4])))) =
     (None, connWithInput ([0, 1, 0, 5, 0, 2, 1, 3] @ [0, 7, 0, 0, 0, 2, 1, 4])) \<and>
   fst (ReadRequest (newTCPTransport
      (connWithInput ([0, 1, 0, 5, 0, 2, 1, 3] @ [0, 7, 0, 0, 0, 2, 1, 4])))) =
     Inl ErrUnknownProtocolId \<and>
   rx (socket (snd (ReadRequest (newTCPTransport
      (connWithInput ([0, 1, 0, 5, 0, 2, 1, 3] @ [0, 7, 0, 0, 0, 2, 1, 4])))))) =
     [0, 7, 0, 0, 0, 2, 1, 4] \<and>
   lastTxnId (snd (ReadRequest (newTCPTransport
      (connWithInput ([0, 1, 0, 5, 0, 2, 1, 3] @ [0, 7, 0, 0, 0, 2, 1, 4]))))) = 0 \<and>
   ReadRequest \<lparr>socket = (connWithInput [0, 7, 0, 0, 0, 2, 1, 4])
                            \<lparr>deadlineResults := [Some ErrClosed]\<rparr>,
                 lastTxnId = 7, logged = []\<rparr> =
     (Inl (ErrIO ErrClosed),
      \<lparr>socket = connWithInput [0, 7, 0, 0, 0, 2, 1, 4], lastTxnId = 7, logged = []\<rparr>) \<and>
   ReadRequest (newTCPTransport (connWithInput [0, 1, 0, 0, 0, 3, 1, 3])) =
     (Inl (ErrIO ErrDeadlineExceeded), newTCPTransport (connWithInput [])) \<and>
   WriteResponse (snd (ReadRequest
      \<lparr>socket = (connWithInput [0x12, 0x34, 0, 0, 0, 3, 1, 3, 9])
                   \<lparr>writeResults := [Some ErrClosed]\<rparr>,
       lastTxnId = 0, logged = []\<rparr>))
      \<lparr>unitId = 1, functionCode = 3, payload = [7, 7]\<rparr> =
     (Some (ErrIO ErrClosed),
      \<lparr>socket = connWithInput [], lastTxnId = 0x1234, logged = []\<rparr>)"
proof -
  let ?V = "\<lparr>socket = (connWithInput [0, 7, 0, 0, 0, 2, 1, 4])
                          \<lparr>deadlineResults := [Some ErrClosed]\<rparr>,
             lastTxnId = 7, logged = []\<rparr>"
  let ?W = "newTCPTransport (connWithInput [0, 1, 0, 0, 0, 3, 1, 3])"
  have dv: "SetDeadline (socket ?V) = (Some ErrClosed, connWithInput [0, 7, 0, 0, 0, 2, 1, 4])"
    by (simp add: SetDeadline_def connWithInput_def)
  have v: "ReadRequest ?V =
             (Inl (ErrIO ErrClosed), ?V\<lparr>socket := connWithInput [0, 7, 0, 0, 0, 2, 1, 4]\<rparr>)"
    by (rule ReadRequest_single_shot
          [where tt = ?V and ?c1.0 = "connWithInput [0, 7, 0, 0, 0, 2, 1, 4]"
             and ?e0.0 = ErrClosed,
           THEN conjunct1, THEN mp, OF dv])
  have dw: "SetDeadline (socket ?W) = (None, connWithInput [0, 1, 0, 0, 0, 3, 1, 3])"
    by (simp add: SetDeadline_def connWithInput_def newTCPTransport_def)
  have fw: "readMBAPFrame (?W\<lparr>socket := connWithInput [0, 1, 0, 0, 0, 3, 1, 3]\<rparr>) =
              (Inl (ErrIO ErrDeadlineExceeded), newTCPTransport (connWithInput []))"
    by (simp add: readMBAPFrame_def ReadFull_def connWithInput_def newTCPTransport_def
          subslice_def Let_def mbapHeaderLength_def maxTCPFrameLength_def)
  have io: "ReadRequest ?W = (Inl (ErrIO ErrDeadlineExceeded), newTCPTransport (connWithInput []))"
    by (rule ReadRequest_single_shot
          [where tt = ?W and ?c1.0 = "connWithInput [0, 1, 0, 0, 0, 3, 1, 3]"
             and e = "ErrIO ErrDeadlineExceeded"
             and ?tt1.0 = "newTCPTransport (connWithInput [])",
           THEN conjunct2, THEN mp, OF dw, THEN conjunct1, THEN mp, OF fw])
  let ?G = "[0, 7, 0, 0, 0, 2, 1, 4] :: byte list"
  let ?C = "connWithInput ([0x12, 0x34, 0, 0, 0, 3, 1, 3, 9] @ ?G)"
  let ?T = "newTCPTransport ?C"
  let ?T1 = "\<lparr>socket = connWithInput ?G, lastTxnId = 0, logged = []\<rparr>"
  let ?P = "\<lparr>unitId = 1, functionCode = 3, payload = [9]\<rparr>"
  let ?R = "\<lparr>unitId = 1, functionCode = 3, payload = [7, 7]\<rparr>"
  let ?D = "connWithInput ([0, 1, 0, 5, 0, 2, 1, 3] @ ?G)"
  let ?U = "newTCPTransport ?D"
  note defs = readMBAPFrame_def ReadFull_def connWithInput_def newTCPTransport_def subslice_def
    Let_def mbapHeaderLength_def maxTCPFrameLength_def
  have ok: "SetDeadline (socket ?T) = (None, ?C)"
    by (simp add: SetDeadline_def connWithInput_def newTCPTransport_def)
  have f: "readMBAPFrame (?T\<lparr>socket := ?C\<rparr>) = (Inr (?P, 0x1234), ?T1)"
    by (simp add: defs)
  let ?C2 = "(connWithInput ?G)\<lparr>tx := [[0x12, 0x34, 0, 0, 0, 4, 1, 3, 7, 7]]\<rparr>"
  have w: "Write (assembleMBAPFrame 0x1234 ?R) (socket ?T1) = (None, ?C2)"
    by (simp add: Write_def connWithInput_def assembleMBAPFrame_def)
  have t: "tx (socket ?T) = []" by (simp add: connWithInput_def newTCPTransport_def)
  have a: "assembleMBAPFrame 0x1234 ?R = [0x12, 0x34, 0, 0, 0, 4, 1, 3, 7, 7]"
    by (simp add: assembleMBAPFrame_def)
  have ok': "SetDeadline (socket ?U) = (None, ?D)"
    by (simp add: SetDeadline_def connWithInput_def newTCPTransport_def)
  have h': "rx (socket ?U) = [0, 1, 0, 5, 0, 2, 1] @ [3] @ ?G"
    by (simp add: connWithInput_def newTCPTransport_def)
  have z: "lastTxnId ?U = 0" by (simp add: newTCPTransport_def)
  note th = ReadRequest_single_shot
      [where tt = ?T and ?c1.0 = ?C and p = ?P and txn = "0x1234" and ?tt1.0 = ?T1
         and res = ?R and ?c2.0 = ?C2,
       THEN conjunct2, THEN mp, OF ok, THEN conjunct2, THEN conjunct1, THEN mp, OF f]
  have r: "ReadRequest ?T = (Inr ?P, ?T1\<lparr>lastTxnId := 0x1234\<rparr>)"
    by (rule th [THEN conjunct1])
  note wth = th [THEN conjunct2, THEN conjunct1, THEN mp, OF w, THEN conjunct1]
  have wr: "fst (WriteResponse (snd (ReadRequest ?T)) ?R) = None"
    unfolding wth by simp
  have x: "tx (socket (snd (WriteResponse (snd (ReadRequest ?T)) ?R))) =
             [[0x12, 0x34, 0, 0, 0, 4, 1, 3, 7, 7]]"
    unfolding wth by simp
  let ?CF = "(connWithInput [0x12, 0x34, 0, 0, 0, 3, 1, 3, 9])\<lparr>writeResults := [Some ErrClosed]\<rparr>"
  let ?TF = "\<lparr>socket = ?CF, lastTxnId = 0, logged = []\<rparr>"
  let ?TF1 = "\<lparr>socket = (connWithInput [])\<lparr>writeResults := [Some ErrClosed]\<rparr>,
               lastTxnId = 0, logged = []\<rparr>"
  have okF: "SetDeadline (socket ?TF) = (None, ?CF)"
    by (simp add: SetDeadline_def connWithInput_def)
  have fF: "readMBAPFrame (?TF\<lparr>socket := ?CF\<rparr>) = (Inr (?P, 0x1234), ?TF1)"
    by (simp add: defs)
  have wF: "Write (assembleMBAPFrame 0x1234 ?R) (socket ?TF1) = (Some ErrClosed, connWithInput [])"
    by (simp add: Write_def connWithInput_def)
  note thF = ReadRequest_single_shot
      [where tt = ?TF and ?c1.0 = ?CF and p = ?P and txn = "0x1234" and ?tt1.0 = ?TF1
         and res = ?R and ?c2.0 = "connWithInput []" and e' = ErrClosed,
       THEN conjunct2, THEN mp, OF okF, THEN conjunct2, THEN conjunct1, THEN mp, OF fF,
       THEN conjunct2, THEN conjunct2, THEN mp, OF wF, THEN conjunct1]
  have wf: "WriteResponse (snd (ReadRequest ?TF)) ?R =
     (Some (ErrIO ErrClosed),
      \<lparr>socket = connWithInput [], lastTxnId = 0x1234, logged = []\<rparr>)"
    unfolding thF by simp
  note th' = ReadRequest_single_shot
      [where tt = ?U and ?c1.0 = ?D and ?t1.0 = 0 and ?t0.0 = 1 and ?p1.0 = 0 and ?p0.0 = 5
         and ?l1.0 = 0 and ?l0.0 = 2 and u = 1 and body = "[3]" and rest = ?G,
       THEN conjunct2, THEN mp, OF ok', THEN conjunct2, THEN conjunct2, THEN mp]
  have u: "rx (socket (snd (ReadRequest ?U))) = ?G \<and>
           fst (ReadRequest ?U) = Inl ErrUnknownProtocolId \<and>
           lastTxnId (snd (ReadRequest ?U)) = 0"
    using th' h' z by simp
  have r': "ReadRequest ?T =
      (Inr ?P, \<lparr>socket = connWithInput ?G, lastTxnId = 0x1234, logged = []\<rparr>)"
    unfolding r by simp
  have v': "ReadRequest ?V =
      (Inl (ErrIO ErrClosed),
       \<lparr>socket = connWithInput [0, 7, 0, 0, 0, 2, 1, 4], lastTxnId = 7, logged = []\<rparr>)"
    unfolding v by simp
  have u1: "fst (ReadRequest ?U) = Inl ErrUnknownProtocolId"
    and u2: "rx (socket (snd (ReadRequest ?U))) = ?G"
    and u3: "lastTxnId (snd (ReadRequest ?U)) = 0"
    using u by simp_all
  show ?thesis
    by (intro conjI) (rule ok, rule r', rule wr, rule x, rule ok', rule u1, rule u2, rule u3,
        rule v', rule io, rule wf)
qed


section \<open>The datagram adapter: one call of \<open>Read\<close>\<close>

lemma Read_leftover_branch:
  assumes inv: "usw_inv usw" and pos: "0 < leftoverCount usw"
    and n_def: "n = min (length buf) (nat (leftoverCount usw))"
  shows "\<exists>r. udpSockWrapper_Read buf usw =
           (Inr (n, take n (leftover usw) @ drop n buf),
            usw\<lparr>rxbuf := r, leftoverCount := leftoverCount usw - int n\<rparr>) \<and>
           length r = length (rxbuf usw) \<and>
           take (nat (leftoverCount usw) - n) r = drop n (leftover usw)"
proof -
  define lc where "lc = nat (leftoverCount usw)"
  have lc: "leftoverCount usw = int lc" "0 < lc" "lc \<le> length (rxbuf usw)"
    using inv pos unfolding lc_def usw_inv_def by linarith+
  have n: "n = min (length buf) lc" "n \<le> lc" by (simp_all add: n_def lc_def)
  have s0: "subslice (rxbuf usw) 0 lc = take lc (rxbuf usw)" by (simp add: subslice_def)
  have c0: "copy buf (take lc (rxbuf usw)) = (take n (take lc (rxbuf usw)) @ drop n buf, n)"
    using lc by (simp add: copy_def n min_absorb2 Let_def)
  have lo: "leftover usw = take lc (rxbuf usw)" by (simp add: leftover_def lc_def)
  show ?thesis
  proof (cases "n < lc")
    case True
    let ?r = "take (lc - n) (drop n (rxbuf usw)) @ drop (lc - n) (rxbuf usw)"
    have s1: "subslice (rxbuf usw) n lc = take (lc - n) (drop n (rxbuf usw))"
      by (simp add: subslice_def)
    have l1: "length (take (lc - n) (drop n (rxbuf usw))) = lc - n" using lc n by simp
    have c1: "fst (copy (rxbuf usw) (take (lc - n) (drop n (rxbuf usw)))) = ?r"
      using lc n l1 by (simp add: copy_def Let_def min_absorb2)
    have "udpSockWrapper_Read buf usw =
           (Inr (n, take n (leftover usw) @ drop n buf),
            usw\<lparr>rxbuf := ?r, leftoverCount := leftoverCount usw - int n\<rparr>)"
      using True lc(2,3) unfolding udpSockWrapper_Read_def lc(1) lo
      by (simp add: s0 c0 s1 c1 Let_def)
    moreover have "length ?r = length (rxbuf usw)" using lc n by simp
    moreover have "take (nat (leftoverCount usw) - n) ?r = drop n (leftover usw)"
      using lc n l1 unfolding lo lc_def [symmetric] by (simp add: drop_take)
    ultimately show ?thesis by blast
  next
    case False
    with n have e: "n = lc" by simp
    have "udpSockWrapper_Read buf usw =
           (Inr (n, take n (leftover usw) @ drop n buf),
            usw\<lparr>rxbuf := rxbuf usw, leftoverCount := leftoverCount usw - int n\<rparr>)"
      using False lc(2,3) unfolding udpSockWrapper_Read_def lc(1) lo
      by (simp add: s0 c0 Let_def e)
    moreover have "take (nat (leftoverCount usw) - n) (rxbuf usw) = drop n (leftover usw)"
      unfolding lo lc_def [symmetric] e by simp
    ultimately show ?thesis by blast
  qed
qed


lemma take_min_length: "take (min a (length d)) d = take a d"
  by (cases "a \<le> length d") (simp_all add: min_def)

lemma Read_fresh_branch:
  assumes empty: "leftoverCount usw \<le> 0"
    and dg: "pending (sock usw) = Inr d # ds"
    and d'_def: "d' = take (length (rxbuf usw)) d"
    and m_def: "m = min (length buf) (length d')"
  shows "\<exists>r. udpSockWrapper_Read buf usw =
           (Inr (m, take m d' @ drop m buf),
            usw\<lparr>sock := (sock usw)\<lparr>pending := ds\<rparr>, rxbuf := r,
                leftoverCount := int (length d') - int m\<rparr>) \<and>
           length r = length (rxbuf usw) \<and>
           take (length d' - m) r = drop m d'"
proof -
  define k where "k = length d'"
  define r1 where "r1 = d' @ drop k (rxbuf usw)"
  have k: "k = min (length (rxbuf usw)) (length d)" "k \<le> length (rxbuf usw)"
    by (simp_all add: k_def d'_def)
  have m: "m = min (length buf) k" "m \<le> k" by (simp_all add: m_def k_def)
  have sr: "sock_Read (rxbuf usw) (sock usw) = (Inr (k, r1), (sock usw)\<lparr>pending := ds\<rparr>)"
    using dg by (simp add: sock_Read_def copy_def Let_def k d'_def take_min_length r1_def)
  have l1: "length r1 = length (rxbuf usw)" using k by (simp add: k_def r1_def)
  have s0: "subslice r1 0 k = d'" by (simp add: subslice_def k_def r1_def)
  have c0: "copy buf d' = (take m d' @ drop m buf, m)"
    by (simp add: copy_def Let_def m_def)
  show ?thesis
  proof (cases "m < k")
    case True
    define r2 where "r2 = drop m d' @ drop (k - m) r1"
    have s1: "subslice r1 m k = drop m d'" using m by (simp add: subslice_def k_def r1_def)
    have c1: "fst (copy r1 (drop m d')) = r2"
      using k m l1 by (simp add: copy_def Let_def k_def min_absorb2 r2_def)
    have "udpSockWrapper_Read buf usw =
           (Inr (m, take m d' @ drop m buf),
            usw\<lparr>sock := (sock usw)\<lparr>pending := ds\<rparr>, rxbuf := r2,
                leftoverCount := int k - int m\<rparr>)"
      using True empty unfolding udpSockWrapper_Read_def sr
      by (simp add: s0 c0 s1 c1 Let_def)
    moreover have "length r2 = length (rxbuf usw)" using k m l1 by (simp add: k_def r2_def)
    moreover have "take (length d' - m) r2 = drop m d'" by (simp add: r2_def)
    ultimately show ?thesis unfolding k_def by blast
  next
    case False
    with m have e: "m = k" by simp
    have "udpSockWrapper_Read buf usw =
           (Inr (m, take m d' @ drop m buf),
            usw\<lparr>sock := (sock usw)\<lparr>pending := ds\<rparr>, rxbuf := r1,
                leftoverCount := int k - int m\<rparr>)"
      using False empty unfolding udpSockWrapper_Read_def sr
      by (simp add: s0 c0 Let_def)
    moreover have "take (length d' - m) r1 = drop m d'" using e by (simp add: k_def r1_def)
    ultimately show ?thesis using l1 unfolding k_def by blast
  qed
qed

lemma Read_error_branch:
  assumes empty: "leftoverCount usw \<le> 0"
    and nodg: "pending (sock usw) = [] \<or> (\<exists>e ds. pending (sock usw) = Inl e # ds)"
  shows "\<exists>e. fst (udpSockWrapper_Read buf usw) = Inl (RecvErr e) \<and>
             rxbuf (snd (udpSockWrapper_Read buf usw)) = rxbuf usw \<and>
             leftoverCount (snd (udpSockWrapper_Read buf usw)) = leftoverCount usw"
  using assms
  by (auto simp: udpSockWrapper_Read_def sock_Read_def)

lemma usw_inv_new: "usw_inv (newUDPSockWrapper s)"
  by (simp add: usw_inv_def newUDPSockWrapper_def maxTCPFrameLength_def)

lemma usw_inv_Read:
  assumes inv: "usw_inv usw"
  shows "usw_inv (snd (udpSockWrapper_Read buf usw))"
proof (cases "0 < leftoverCount usw")
  case True
  from Read_leftover_branch [OF inv True refl, of buf] obtain r where
    r: "udpSockWrapper_Read buf usw =
           (Inr (min (length buf) (nat (leftoverCount usw)),
                 take (min (length buf) (nat (leftoverCount usw))) (leftover usw) @
                 drop (min (length buf) (nat (leftoverCount usw))) buf),
            usw\<lparr>rxbuf := r,
                leftoverCount := leftoverCount usw - int (min (length buf) (nat (leftoverCount usw)))\<rparr>)"
    and l: "length r = length (rxbuf usw)"
    by blast
  show ?thesis using inv True l unfolding r usw_inv_def by auto
next
  case False
  then have empty: "leftoverCount usw \<le> 0" by simp
  show ?thesis
  proof (cases "\<exists>d ds. pending (sock usw) = Inr d # ds")
    case True
    then obtain d ds where dg: "pending (sock usw) = Inr d # ds" by blast
    from Read_fresh_branch [OF empty dg refl refl, of buf] obtain r where
      r: "udpSockWrapper_Read buf usw =
           (Inr (min (length buf) (length (take (length (rxbuf usw)) d)),
                 take (min (length buf) (length (take (length (rxbuf usw)) d)))
                      (take (length (rxbuf usw)) d) @
                 drop (min (length buf) (length (take (length (rxbuf usw)) d))) buf),
            usw\<lparr>sock := (sock usw)\<lparr>pending := ds\<rparr>, rxbuf := r,
                leftoverCount := int (length (take (length (rxbuf usw)) d)) -
                   int (min (length buf) (length (take (length (rxbuf usw)) d)))\<rparr>)"
      and l: "length r = length (rxbuf usw)"
      by blast
    show ?thesis using inv l unfolding r usw_inv_def by auto
  next
    case False
    then have "pending (sock usw) = [] \<or> (\<exists>e ds. pending (sock usw) = Inl e # ds)"
      by (cases "pending (sock usw)") (auto intro: sum.exhaust)
    from Read_error_branch [OF empty this, of buf] inv show ?thesis
      by (auto simp: usw_inv_def)
  qed
qed


lemma Read_leftover_facts:
  assumes inv: "usw_inv usw" and pos: "0 < leftoverCount usw"
    and n_def: "n = min (length buf) (nat (leftoverCount usw))"
  shows "fst (udpSockWrapper_Read buf usw) = Inr (n, take n (leftover usw) @ drop n buf) \<and>
         leftoverCount (snd (udpSockWrapper_Read buf usw)) = leftoverCount usw - int n \<and>
         leftover (snd (udpSockWrapper_Read buf usw)) = drop n (leftover usw) \<and>
         sock (snd (udpSockWrapper_Read buf usw)) = sock usw"
proof -
  from Read_leftover_branch [OF inv pos n_def] obtain r where
    r: "udpSockWrapper_Read buf usw =
           (Inr (n, take n (leftover usw) @ drop n buf),
            usw\<lparr>rxbuf := r, leftoverCount := leftoverCount usw - int n\<rparr>)"
    and t: "take (nat (leftoverCount usw) - n) r = drop n (leftover usw)"
    by blast
  have "nat (leftoverCount usw - int n) = nat (leftoverCount usw) - n" by simp
  with t show ?thesis unfolding r by (simp add: leftover_def)
qed

lemma Read_fresh_facts:
  assumes empty: "leftoverCount usw \<le> 0"
    and dg: "pending (sock usw) = Inr d # ds"
    and d'_def: "d' = take (length (rxbuf usw)) d"
    and m_def: "m = min (length buf) (length d')"
  shows "fst (udpSockWrapper_Read buf usw) = Inr (m, take m d' @ drop m buf) \<and>
         leftoverCount (snd (udpSockWrapper_Read buf usw)) = int (length d') - int m \<and>
         leftover (snd (udpSockWrapper_Read buf usw)) = drop m d' \<and>
         pending (sock (snd (udpSockWrapper_Read buf usw))) = ds"
proof -
  from Read_fresh_branch [OF empty dg d'_def m_def] obtain r where
    r: "udpSockWrapper_Read buf usw =
           (Inr (m, take m d' @ drop m buf),
            usw\<lparr>sock := (sock usw)\<lparr>pending := ds\<rparr>, rxbuf := r,
                leftoverCount := int (length d') - int m\<rparr>)"
    and t: "take (length d' - m) r = drop m d'"
    by blast
  have "nat (int (length d') - int m) = length d' - m" by simp
  with t show ?thesis unfolding r by (simp add: leftover_def)
qed

lemma Read_no_span:
  assumes inv: "usw_inv v"
  shows "case udpSockWrapper_Read bufv v of
           (Inl e, v') \<Rightarrow> True
         | (Inr (n, out), v') \<Rightarrow>
             (sock v' = sock v \<and> n \<le> length (leftover v) \<and>
              take n out = take n (leftover v)) \<or>
             (\<exists>d0. pending (sock v) = Inr d0 # pending (sock v') \<and> leftoverCount v = 0 \<and>
                   n \<le> length d0 \<and> take n out = take n d0)"
proof (cases "0 < leftoverCount v")
  case True
  define n where "n = min (length bufv) (nat (leftoverCount v))"
  have "nat (leftoverCount v) \<le> length (rxbuf v)"
    using inv True unfolding usw_inv_def by linarith
  then have l: "length (leftover v) = nat (leftoverCount v)"
    unfolding leftover_def by simp
  then have nl: "n \<le> length (leftover v)" by (simp add: n_def)
  from Read_leftover_facts [OF inv True n_def]
  have f: "fst (udpSockWrapper_Read bufv v) = Inr (n, take n (leftover v) @ drop n bufv)"
    and s: "sock (snd (udpSockWrapper_Read bufv v)) = sock v" by simp_all
  have "take n (take n (leftover v) @ drop n bufv) = take n (leftover v)"
    using nl by simp
  with f s nl show ?thesis
    by (cases "udpSockWrapper_Read bufv v") auto
next
  case False
  with inv have z: "leftoverCount v = 0" and e: "leftoverCount v \<le> 0"
    by (simp_all add: usw_inv_def)
  show ?thesis
  proof (cases "\<exists>d ds. pending (sock v) = Inr d # ds")
    case True
    then obtain d ds where dg: "pending (sock v) = Inr d # ds" by blast
    define d' where "d' = take (length (rxbuf v)) d"
    define m where "m = min (length bufv) (length d')"
    have ml: "m \<le> length d'" "m \<le> length d" "m \<le> length (rxbuf v)"
      by (auto simp: m_def d'_def)
    from Read_fresh_facts [OF e dg d'_def m_def]
    have f: "fst (udpSockWrapper_Read bufv v) = Inr (m, take m d' @ drop m bufv)"
      and p: "pending (sock (snd (udpSockWrapper_Read bufv v))) = ds" by simp_all
    have "take m (take m d' @ drop m bufv) = take m d'" using ml by simp
    also have "\<dots> = take m d" using ml by (simp add: d'_def min_absorb2)
    finally have "take m (take m d' @ drop m bufv) = take m d" .
    with f p dg z ml show ?thesis
      by (cases "udpSockWrapper_Read bufv v") auto
  next
    case False
    then have "pending (sock v) = [] \<or> (\<exists>e ds. pending (sock v) = Inl e # ds)"
      by (cases "pending (sock v)") (auto intro: sum.exhaust)
    from Read_error_branch [OF e this, of bufv] show ?thesis
      by (cases "udpSockWrapper_Read bufv v") auto
  qed
qed

text \<open>
  C7. In every state the adapter can reach (\<open>usw_inv\<close> holds of a new adapter and after
  every \<open>Read\<close>): whenever \<open>leftoverCount > 0\<close>, \<open>Read\<close> copies
  \<open>min(len(buf), leftoverCount)\<close> bytes from the front of the internal buffer into
  \<open>buf\<close>, moves the remainder to offset 0 so that it is again the prefix of the buffer of
  length \<open>leftoverCount\<close>, lowers \<open>leftoverCount\<close> by the number copied, and leaves the
  socket untouched. The socket is only touched when \<open>leftoverCount = 0\<close>, and after a fresh
  datagram the bytes not yet handed out are again that prefix.
\<close>

theorem Read_serves_leftover:
  assumes inv: "usw_inv usw"
  shows
   "(0 < leftoverCount usw \<longrightarrow>
       fst (udpSockWrapper_Read buf usw) =
         Inr (min (length buf) (nat (leftoverCount usw)),
              take (min (length buf) (nat (leftoverCount usw))) (leftover usw) @
              drop (min (length buf) (nat (leftoverCount usw))) buf) \<and>
       leftoverCount (snd (udpSockWrapper_Read buf usw)) =
         leftoverCount usw - int (min (length buf) (nat (leftoverCount usw))) \<and>
       leftover (snd (udpSockWrapper_Read buf usw)) =
         drop (min (length buf) (nat (leftoverCount usw))) (leftover usw) \<and>
       sock (snd (udpSockWrapper_Read buf usw)) = sock usw) \<and>
    (sock (snd (udpSockWrapper_Read buf usw)) \<noteq> sock usw \<longrightarrow> leftoverCount usw = 0) \<and>
    (leftoverCount usw = 0 \<and> pending (sock usw) = Inr d # ds \<longrightarrow>
       leftover (snd (udpSockWrapper_Read buf usw)) =
         drop (min (length buf) (length (take 260 d))) (take 260 d) \<and>
       leftoverCount (snd (udpSockWrapper_Read buf usw)) =
         int (length (take 260 d)) - int (min (length buf) (length (take 260 d)))) \<and>
    usw_inv (snd (udpSockWrapper_Read buf usw)) \<and>
    usw_inv (newUDPSockWrapper s) \<and> leftoverCount (newUDPSockWrapper s) = 0"
proof -
  have a: "0 < leftoverCount usw \<longrightarrow>
       fst (udpSockWrapper_Read buf usw) =
         Inr (min (length buf) (nat (leftoverCount usw)),
              take (min (length buf) (nat (leftoverCount usw))) (leftover usw) @
              drop (min (length buf) (nat (leftoverCount usw))) buf) \<and>
       leftoverCount (snd (udpSockWrapper_Read buf usw)) =
         leftoverCount usw - int (min (length buf) (nat (leftoverCount usw))) \<and>
       leftover (snd (udpSockWrapper_Read buf usw)) =
         drop (min (length buf) (nat (leftoverCount usw))) (leftover usw) \<and>
       sock (snd (udpSockWrapper_Read buf usw)) = sock usw"
    using Read_leftover_facts [OF inv _ refl, of buf] by blast
  have b: "sock (snd (udpSockWrapper_Read buf usw)) \<noteq> sock usw \<longrightarrow> leftoverCount usw = 0"
  proof (cases "0 < leftoverCount usw")
    case True
    with a show ?thesis by simp
  next
    case False
    with inv show ?thesis by (simp add: usw_inv_def)
  qed
  have len: "length (rxbuf usw) = 260"
    using inv by (simp add: usw_inv_def maxTCPFrameLength_def)
  have c: "leftoverCount usw = 0 \<and> pending (sock usw) = Inr d # ds \<longrightarrow>
       leftover (snd (udpSockWrapper_Read buf usw)) =
         drop (min (length buf) (length (take 260 d))) (take 260 d) \<and>
       leftoverCount (snd (udpSockWrapper_Read buf usw)) =
         int (length (take 260 d)) - int (min (length buf) (length (take 260 d)))"
  proof
    assume h: "leftoverCount usw = 0 \<and> pending (sock usw) = Inr d # ds"
    then have e: "leftoverCount usw \<le> 0" and dg: "pending (sock usw) = Inr d # ds" by simp_all
    have d': "take 260 d = take (length (rxbuf usw)) d" by (simp add: len)
    from Read_fresh_facts [OF e dg d' refl, of buf]
    show "leftover (snd (udpSockWrapper_Read buf usw)) =
         drop (min (length buf) (length (take 260 d))) (take 260 d) \<and>
       leftoverCount (snd (udpSockWrapper_Read buf usw)) =
         int (length (take 260 d)) - int (min (length buf) (length (take 260 d)))"
      by simp
  qed
  have e: "leftoverCount (newUDPSockWrapper s) = 0" by (simp add: newUDPSockWrapper_def)
  from a b c usw_inv_Read [OF inv, of buf] usw_inv_new [of s] e show ?thesis by blast
qed


theorem Read_serves_leftover_witness:
  "usw_inv \<lparr>leftoverCount = 3, rxbuf = [3, 4, 5] @ replicate 257 0,
            sock = \<lparr>pending = [Inr [9]], idleErr = ErrDeadlineExceeded\<rparr>\<rparr> \<and>
   fst (udpSockWrapper_Read [0, 0]
          \<lparr>leftoverCount = 3, rxbuf = [3, 4, 5] @ replicate 257 0,
           sock = \<lparr>pending = [Inr [9]], idleErr = ErrDeadlineExceeded\<rparr>\<rparr>) = Inr (2, [3, 4]) \<and>
   leftoverCount (snd (udpSockWrapper_Read [0, 0]
          \<lparr>leftoverCount = 3, rxbuf = [3, 4, 5] @ replicate 257 0,
           sock = \<lparr>pending = [Inr [9]], idleErr = ErrDeadlineExceeded\<rparr>\<rparr>)) = 1 \<and>
   leftover (snd (udpSockWrapper_Read [0, 0]
          \<lparr>leftoverCount = 3, rxbuf = [3, 4, 5] @ replicate 257 0,
           sock = \<lparr>pending = [Inr [9]], idleErr = ErrDeadlineExceeded\<rparr>\<rparr>)) = [5] \<and>
   sock (snd (udpSockWrapper_Read [0, 0]
          \<lparr>leftoverCount = 3, rxbuf = [3, 4, 5] @ replicate 257 0,
           sock = \<lparr>pending = [Inr [9]], idleErr = ErrDeadlineExceeded\<rparr>\<rparr>)) =
     \<lparr>pending = [Inr [9]], idleErr = ErrDeadlineExceeded\<rparr> \<and>
   usw_inv (newUDPSockWrapper \<lparr>pending = [Inr [1, 2, 3, 4, 5]], idleErr = ErrDeadlineExceeded\<rparr>) \<and>
   leftoverCount (newUDPSockWrapper
      \<lparr>pending = [Inr [1, 2, 3, 4, 5]], idleErr = ErrDeadlineExceeded\<rparr>) = 0 \<and>
   leftover (snd (udpSockWrapper_Read [0, 0] (newUDPSockWrapper
      \<lparr>pending = [Inr [1, 2, 3, 4, 5]], idleErr = ErrDeadlineExceeded\<rparr>))) = [3, 4, 5] \<and>
   leftoverCount (snd (udpSockWrapper_Read [0, 0] (newUDPSockWrapper
      \<lparr>pending = [Inr [1, 2, 3, 4, 5]], idleErr = ErrDeadlineExceeded\<rparr>))) = 3 \<and>
   usw_inv (snd (udpSockWrapper_Read [0, 0] (newUDPSockWrapper
      \<lparr>pending = [Inr [1, 2, 3, 4, 5]], idleErr = ErrDeadlineExceeded\<rparr>)))"
proof -
  let ?S = "\<lparr>pending = [Inr [1, 2, 3, 4, 5]], idleErr = ErrDeadlineExceeded\<rparr>"
  let ?N = "newUDPSockWrapper ?S"
  note th = Read_serves_leftover [where usw = ?N and buf = "[0, 0]" and s = ?S
      and d = "[1, 2, 3, 4, 5]" and ds = "[]"]
  have i: "usw_inv ?N"
    by (simp add: usw_inv_def newUDPSockWrapper_def maxTCPFrameLength_def)
  have z: "leftoverCount ?N = 0 \<and> pending (sock ?N) = Inr [1, 2, 3, 4, 5] # []"
    by (simp add: newUDPSockWrapper_def)
  have fresh: "leftover (snd (udpSockWrapper_Read [0, 0] ?N)) = [3, 4, 5] \<and>
               leftoverCount (snd (udpSockWrapper_Read [0, 0] ?N)) = 3 \<and>
               usw_inv (snd (udpSockWrapper_Read [0, 0] ?N))"
    using th [OF i, THEN conjunct2, THEN conjunct2, THEN conjunct1, THEN mp, OF z]
          th [OF i, THEN conjunct2, THEN conjunct2, THEN conjunct2, THEN conjunct1]
    by simp
  let ?U = "\<lparr>leftoverCount = 3, rxbuf = [3, 4, 5] @ replicate 257 0,
             sock = \<lparr>pending = [Inr [9]], idleErr = ErrDeadlineExceeded\<rparr>\<rparr>"
  have inv: "usw_inv ?U" by (simp add: usw_inv_def maxTCPFrameLength_def)
  have lo: "leftover ?U = [3, 4, 5]" by (simp add: leftover_def)
  from Read_serves_leftover [OF inv, of "[0, 0]", THEN conjunct1] inv lo i z fresh
  show ?thesis by simp
qed

text \<open>
  C8. A datagram of 260 bytes read through an adapter with nothing left over: a \<open>Read\<close>
  into 7 bytes followed by a \<open>Read\<close> into 253 bytes returns its first 7 and its last 253
  bytes, together the same 260 bytes in the same order that one \<open>Read\<close> into 260 bytes
  returns; both ways consume that one datagram and leave nothing over. No call returns bytes
  of two datagrams: what a \<open>Read\<close> returns is either a prefix of the leftover bytes, with
  the socket untouched, or a prefix of the single datagram it received, with nothing left
  over before.
\<close>

theorem datagram_split_read:
  assumes inv: "usw_inv usw" and empty: "leftoverCount usw = 0"
    and dg: "pending (sock usw) = Inr d # ds" and len: "length d = 260"
    and b1: "length buf1 = 7" and b2: "length buf2 = 253" and b: "length buf = 260"
  shows
   "fst (udpSockWrapper_Read buf1 usw) = Inr (7, take 7 d) \<and>
    fst (udpSockWrapper_Read buf2 (snd (udpSockWrapper_Read buf1 usw))) = Inr (253, drop 7 d) \<and>
    fst (udpSockWrapper_Read buf usw) = Inr (260, d) \<and>
    take 7 d @ drop 7 d = d \<and>
    pending (sock (snd (udpSockWrapper_Read buf2 (snd (udpSockWrapper_Read buf1 usw))))) = ds \<and>
    pending (sock (snd (udpSockWrapper_Read buf usw))) = ds \<and>
    leftoverCount (snd (udpSockWrapper_Read buf2 (snd (udpSockWrapper_Read buf1 usw)))) = 0 \<and>
    leftoverCount (snd (udpSockWrapper_Read buf usw)) = 0 \<and>
    (usw_inv v \<longrightarrow>
       (case udpSockWrapper_Read bufv v of
           (Inl e, v') \<Rightarrow> True
         | (Inr (n, out), v') \<Rightarrow>
             (sock v' = sock v \<and> n \<le> length (leftover v) \<and>
              take n out = take n (leftover v)) \<or>
             (\<exists>d0. pending (sock v) = Inr d0 # pending (sock v') \<and> leftoverCount v = 0 \<and>
                   n \<le> length d0 \<and> take n out = take n d0)))"
proof -
  have rl: "length (rxbuf usw) = 260"
    using inv by (simp add: usw_inv_def maxTCPFrameLength_def)
  have e: "leftoverCount usw \<le> 0" using empty by simp
  have d': "d = take (length (rxbuf usw)) d" using len rl by simp
  let ?u1 = "snd (udpSockWrapper_Read buf1 usw)"
  have m1: "7 = min (length buf1) (length d)" using b1 len by simp
  from Read_fresh_facts [OF e dg d' m1]
  have f1: "fst (udpSockWrapper_Read buf1 usw) = Inr (7, take 7 d @ drop 7 buf1)"
    and c1: "leftoverCount ?u1 = 253"
    and l1: "leftover ?u1 = drop 7 d"
    and p1: "pending (sock ?u1) = ds"
    using len by simp_all
  have i1: "usw_inv ?u1" by (rule usw_inv_Read [OF inv])
  have pos1: "0 < leftoverCount ?u1" using c1 by simp
  have n2: "253 = min (length buf2) (nat (leftoverCount ?u1))" using b2 c1 by simp
  from Read_leftover_facts [OF i1 pos1 n2]
  have f2: "fst (udpSockWrapper_Read buf2 ?u1) = Inr (253, take 253 (drop 7 d) @ drop 253 buf2)"
    and c2: "leftoverCount (snd (udpSockWrapper_Read buf2 ?u1)) = 0"
    and s2: "sock (snd (udpSockWrapper_Read buf2 ?u1)) = sock ?u1"
    using c1 l1 by simp_all
  have m: "260 = min (length buf) (length d)" using b len by simp
  from Read_fresh_facts [OF e dg d' m]
  have f: "fst (udpSockWrapper_Read buf usw) = Inr (260, take 260 d @ drop 260 buf)"
    and c: "leftoverCount (snd (udpSockWrapper_Read buf usw)) = 0"
    and p: "pending (sock (snd (udpSockWrapper_Read buf usw))) = ds"
    using len by simp_all
  have g1: "fst (udpSockWrapper_Read buf1 usw) = Inr (7, take 7 d)"
    unfolding f1 using b1 by simp
  have g2: "fst (udpSockWrapper_Read buf2 ?u1) = Inr (253, drop 7 d)"
    unfolding f2 using b2 len by simp
  have g: "fst (udpSockWrapper_Read buf usw) = Inr (260, d)"
    unfolding f using b len by simp
  have ns: "usw_inv v \<longrightarrow>
       (case udpSockWrapper_Read bufv v of
           (Inl e, v') \<Rightarrow> True
         | (Inr (n, out), v') \<Rightarrow>
             (sock v' = sock v \<and> n \<le> length (leftover v) \<and>
              take n out = take n (leftover v)) \<or>
             (\<exists>d0. pending (sock v) = Inr d0 # pending (sock v') \<and> leftoverCount v = 0 \<and>
                   n \<le> length d0 \<and> take n out = take n d0))"
    by (rule impI) (rule Read_no_span)
  have ap: "take 7 d @ drop 7 d = d" by simp
  from g1 g2 g ap p1 s2 p c2 c ns show ?thesis by simp
qed


theorem datagram_split_read_witness:
  "usw_inv (newUDPSockWrapper
      \<lparr>pending = [Inr ([1, 2, 3, 4, 5, 6, 7] @ replicate 253 9)],
       idleErr = ErrDeadlineExceeded\<rparr>) \<and>
   length ([1, 2, 3, 4, 5, 6, 7] @ replicate 253 (9 :: byte)) = 260 \<and>
   fst (udpSockWrapper_Read (replicate 7 0) (newUDPSockWrapper
      \<lparr>pending = [Inr ([1, 2, 3, 4, 5, 6, 7] @ replicate 253 9)],
       idleErr = ErrDeadlineExceeded\<rparr>)) = Inr (7, [1, 2, 3, 4, 5, 6, 7]) \<and>
   fst (udpSockWrapper_Read (replicate 253 0)
         (snd (udpSockWrapper_Read (replicate 7 0) (newUDPSockWrapper
            \<lparr>pending = [Inr ([1, 2, 3, 4, 5, 6, 7] @ replicate 253 9)],
             idleErr = ErrDeadlineExceeded\<rparr>)))) = Inr (253, replicate 253 9) \<and>
   fst (udpSockWrapper_Read (replicate 260 0) (newUDPSockWrapper
      \<lparr>pending = [Inr ([1, 2, 3, 4, 5, 6, 7] @ replicate 253 9)],
       idleErr = ErrDeadlineExceeded\<rparr>)) =
     Inr (260, [1, 2, 3, 4, 5, 6, 7] @ replicate 253 9) \<and>
   usw_inv \<lparr>leftoverCount = 3, rxbuf = [3, 4, 5] @ replicate 257 0,
            sock = \<lparr>pending = [Inr [9]], idleErr = ErrDeadlineExceeded\<rparr>\<rparr> \<and>
   udpSockWrapper_Read (replicate 10 0)
     \<lparr>leftoverCount = 3, rxbuf = [3, 4, 5] @ replicate 257 0,
      sock = \<lparr>pending = [Inr [9]], idleErr = ErrDeadlineExceeded\<rparr>\<rparr> =
     (Inr (3, [3, 4, 5] @ replicate 7 0),
      \<lparr>leftoverCount = 0, rxbuf = [3, 4, 5] @ replicate 257 0,
       sock = \<lparr>pending = [Inr [9]], idleErr = ErrDeadlineExceeded\<rparr>\<rparr>) \<and>
   (case udpSockWrapper_Read (replicate 10 0)
           \<lparr>leftoverCount = 3, rxbuf = [3, 4, 5] @ replicate 257 0,
            sock = \<lparr>pending = [Inr [9]], idleErr = ErrDeadlineExceeded\<rparr>\<rparr> of
      (Inl e, v') \<Rightarrow> True
    | (Inr (n, out), v') \<Rightarrow>
        (sock v' = sock \<lparr>leftoverCount = 3, rxbuf = [3, 4, 5] @ replicate 257 0,
                   sock = \<lparr>pending = [Inr [9]], idleErr = ErrDeadlineExceeded\<rparr>\<rparr> \<and>
         n \<le> length (leftover \<lparr>leftoverCount = 3, rxbuf = [3, 4, 5] @ replicate 257 0,
                   sock = \<lparr>pending = [Inr [9]], idleErr = ErrDeadlineExceeded\<rparr>\<rparr>) \<and>
         take n out =
           take n (leftover \<lparr>leftoverCount = 3, rxbuf = [3, 4, 5] @ replicate 257 0,
                   sock = \<lparr>pending = [Inr [9]], idleErr = ErrDeadlineExceeded\<rparr>\<rparr>)) \<or>
        (\<exists>d0. pending (sock \<lparr>leftoverCount = 3, rxbuf = [3, 4, 5] @ replicate 257 0,
                   sock = \<lparr>pending = [Inr [9]], idleErr = ErrDeadlineExceeded\<rparr>\<rparr>) =
                Inr d0 # pending (sock v') \<and>
              leftoverCount \<lparr>leftoverCount = 3, rxbuf = [3, 4, 5] @ replicate 257 0,
                   sock = \<lparr>pending = [Inr [9]], idleErr = ErrDeadlineExceeded\<rparr>\<rparr> = 0 \<and>
              n \<le> length d0 \<and> take n out = take n d0))"
proof -
  let ?U = "\<lparr>leftoverCount = 3, rxbuf = [3, 4, 5] @ replicate 257 0,
             sock = \<lparr>pending = [Inr [9]], idleErr = ErrDeadlineExceeded\<rparr>\<rparr>"
  have i: "usw_inv ?U" by (simp add: usw_inv_def maxTCPFrameLength_def)
  have r: "udpSockWrapper_Read (replicate 10 0) ?U =
     (Inr (3, [3, 4, 5] @ replicate 7 0),
      \<lparr>leftoverCount = 0, rxbuf = [3, 4, 5] @ replicate 257 0,
       sock = \<lparr>pending = [Inr [9]], idleErr = ErrDeadlineExceeded\<rparr>\<rparr>)"
    by (simp add: udpSockWrapper_Read_def copy_def subslice_def Let_def)
  let ?d = "[1, 2, 3, 4, 5, 6, 7] @ replicate 253 (9 :: byte)"
  let ?S = "\<lparr>pending = [Inr ?d], idleErr = ErrDeadlineExceeded\<rparr>"
  have inv: "usw_inv (newUDPSockWrapper ?S)" by (rule usw_inv_new)
  have empty: "leftoverCount (newUDPSockWrapper ?S) = 0" by (simp add: newUDPSockWrapper_def)
  have dg: "pending (sock (newUDPSockWrapper ?S)) = Inr ?d # []"
    by (simp add: newUDPSockWrapper_def)
  have len: "length ?d = 260" by simp
  have b1: "length (replicate 7 (0 :: byte)) = 7"
    and b2: "length (replicate 253 (0 :: byte)) = 253"
    and b: "length (replicate 260 (0 :: byte)) = 260" by simp_all
  have t: "take 7 ?d = [1, 2, 3, 4, 5, 6, 7]" and d: "drop 7 ?d = replicate 253 9" by simp_all
  note span = datagram_split_read
      [OF inv empty dg len b1 b2 b, where v = ?U and bufv = "replicate 10 0",
       THEN conjunct2, THEN conjunct2, THEN conjunct2, THEN conjunct2, THEN conjunct2,
       THEN conjunct2, THEN conjunct2, THEN conjunct2, THEN mp, OF i]
  have split:
    "fst (udpSockWrapper_Read (replicate 7 0) (newUDPSockWrapper ?S)) =
       Inr (7, [1, 2, 3, 4, 5, 6, 7]) \<and>
     fst (udpSockWrapper_Read (replicate 253 0)
           (snd (udpSockWrapper_Read (replicate 7 0) (newUDPSockWrapper ?S)))) =
       Inr (253, replicate 253 9) \<and>
     fst (udpSockWrapper_Read (replicate 260 0) (newUDPSockWrapper ?S)) = Inr (260, ?d)"
    using datagram_split_read [OF inv empty dg len b1 b2 b]
    unfolding t d by simp
  show ?thesis
    by (intro conjI) (rule inv, rule len, rule split [THEN conjunct1],
        rule split [THEN conjunct2, THEN conjunct1],
        rule split [THEN conjunct2, THEN conjunct2], rule i, rule r, rule span)
qed


end
